theory Spec2Isabelle
  imports Main
begin

section \<open>JavaScript values\<close>

text \<open>
  The registry of \<^verbatim>\<open>src/Tools.ts\<close> inspects the exports of dynamically imported
  modules with truthiness tests and \<^verbatim>\<open>typeof\<close>, and it reads \<^verbatim>\<open>.message\<close> of whatever
  a failed import was rejected with. The values it can meet are modelled by one datatype:
  \<open>JObj\<close> is an object that is neither a function nor an \<^verbatim>\<open>Error\<close> (a zod schema, an
  array), \<open>JFun\<close> a function object, \<open>JErr m\<close> an \<^verbatim>\<open>Error\<close> whose message is \<open>m\<close>.
  Numbers are integers here: only their truthiness and their \<^verbatim>\<open>typeof\<close> are ever read.
\<close>

datatype jsval =
    JUndefined
  | JNull
  | JBool bool
  | JNum int
  | JStr string
  | JObj nat
  | JFun nat
  | JErr string

fun truthy :: "jsval \<Rightarrow> bool" where
  "truthy JUndefined = False"
| "truthy JNull = False"
| "truthy (JBool b) = b"
| "truthy (JNum n) = (n \<noteq> 0)"
| "truthy (JStr s) = (s \<noteq> [])"
| "truthy (JObj _) = True"
| "truthy (JFun _) = True"
| "truthy (JErr _) = True"

fun typeof :: "jsval \<Rightarrow> string" where
  "typeof JUndefined = ''undefined''"
| "typeof JNull = ''object''"
| "typeof (JBool _) = ''boolean''"
| "typeof (JNum _) = ''number''"
| "typeof (JStr _) = ''string''"
| "typeof (JObj _) = ''object''"
| "typeof (JFun _) = ''function''"
| "typeof (JErr _) = ''object''"

text \<open>
  Reading the property \<^verbatim>\<open>message\<close>: on \<^verbatim>\<open>null\<close> and \<^verbatim>\<open>undefined\<close> the read itself
  throws a \<^verbatim>\<open>TypeError\<close> (\<open>Inl\<close>); an \<^verbatim>\<open>Error\<close> gives its message; the other values
  of this model carry no such property and give \<^verbatim>\<open>undefined\<close>.
\<close>

fun get_message :: "jsval \<Rightarrow> jsval + jsval" where
  "get_message JUndefined = Inl (JErr ''undefined is not an object (evaluating 'err.message')'')"
| "get_message JNull = Inl (JErr ''null is not an object (evaluating 'err.message')'')"
| "get_message (JErr m) = Inr (JStr m)"
| "get_message _ = Inr JUndefined"

text \<open>
  The optional chain \<^verbatim>\<open>reason?.message || reason\<close> of the always-rescan variant never
  throws: \<^verbatim>\<open>?.\<close> short-circuits on \<^verbatim>\<open>null\<close> and \<^verbatim>\<open>undefined\<close>.
\<close>

fun message_or_self :: "jsval \<Rightarrow> jsval" where
  "message_or_self (JErr m) = (if m \<noteq> [] then JStr m else JErr m)"
| "message_or_self v = v"

section \<open>Modules, tool definitions, the world\<close>

text \<open>
  A module namespace is a \<^verbatim>\<open>Record<string, unknown>\<close>: an association list, where a
  missing export reads as \<^verbatim>\<open>undefined\<close>. A tool file is represented by what evaluating
  its current content yields: the exports, or the value thrown while importing.
\<close>

type_synonym exports = "(string \<times> jsval) list"

datatype module_result = Throws jsval | Exports exports

definition get_export :: "exports \<Rightarrow> string \<Rightarrow> jsval" where
  "get_export m k = (case map_of m k of None \<Rightarrow> JUndefined | Some v \<Rightarrow> v)"

record tool =
  name :: string
  description :: string
  inputSchema :: jsval
  execute :: jsval

datatype level = DEBUG | INFO | WARN | ERROR

type_synonym log_entry = "level \<times> string \<times> (string \<times> jsval) list"

text \<open>
  Everything outside the \<^verbatim>\<open>Tools\<close> object: the regular files under the target folder
  (path relative to the folder, in the order a scan enumerates them), the runtime's
  module map (import specifier to the module instance loaded under it), the clock read
  by \<^verbatim>\<open>Date.now()\<close>, the open \<^verbatim>\<open>FSWatcher\<close> handles, what the logger was given, and three
  counters: scans of the folder, calls of \<^verbatim>\<open>import()\<close>, and evaluations of a file's content.
\<close>

record world =
  dir :: "(string \<times> module_result) list"
  modules :: "(string \<times> module_result) list"
  now :: nat
  watchers :: "nat list"
  nextWatcher :: nat
  logged :: "log_entry list"
  scanCount :: nat
  importCount :: nat
  evalCount :: nat

text \<open>
  The fields of \<^verbatim>\<open>Tools\<close> (lines 25-30). A JavaScript \<^verbatim>\<open>Map\<close> iterates in insertion
  order, so both maps are association lists with distinct keys. The glob is represented by
  its \<^verbatim>\<open>match\<close> method, the subscriber by its effect on the world and whether it throws.
\<close>

record tools =
  targetFolder :: string
  globPattern :: "string \<Rightarrow> bool"
  toolCache :: "(string \<times> tool) list"
  toolPathMap :: "(string \<times> string) list"
  cacheValid :: bool
  watcher :: "nat option"
  onChangeCallback :: "(world \<Rightarrow> (jsval + unit) \<times> world) option"

text \<open>\<^verbatim>\<open>Map.prototype.set\<close>: an existing key keeps its position, a new key goes last.\<close>

fun map_set :: "'k \<Rightarrow> 'v \<Rightarrow> ('k \<times> 'v) list \<Rightarrow> ('k \<times> 'v) list" where
  "map_set k v [] = [(k, v)]"
| "map_set k v (e # m) = (if fst e = k then (k, v) # m else e # map_set k v m)"

definition map_has :: "'k \<Rightarrow> ('k \<times> 'v) list \<Rightarrow> bool" where
  "map_has k m = (map_of m k \<noteq> None)"

definition map_values :: "('k \<times> 'v) list \<Rightarrow> 'v list" where
  "map_values m = map snd m"

definition log_to :: "level \<Rightarrow> string \<Rightarrow> (string \<times> jsval) list \<Rightarrow> world \<Rightarrow> world" where
  "log_to l msg meta w = w\<lparr>logged := logged w @ [(l, msg, meta)]\<rparr>"

section \<open>Paths\<close>

text \<open>
  \<^verbatim>\<open>path.extname\<close> and \<^verbatim>\<open>path.basename\<close> of Node on POSIX paths. Both work on the last
  segment of the path, trailing slashes ignored. The extension runs from the last dot of
  the segment to its end, and is empty when the segment has no dot, when its only dot is
  its first character, or when the segment is \<^verbatim>\<open>..\<close>.
\<close>

definition last_segment :: "string \<Rightarrow> string" where
  "last_segment p =
     rev (takeWhile (\<lambda>c. c \<noteq> CHR ''/'') (dropWhile (\<lambda>c. c = CHR ''/'') (rev p)))"

definition extname :: "string \<Rightarrow> string" where
  "extname p =
     (let b = last_segment p;
          e = rev (takeWhile (\<lambda>c. c \<noteq> CHR ''.'') (rev b))
      in if CHR ''.'' \<notin> set b then []
         else if length e + 1 = length b then []
         else if b = ''..'' then []
         else CHR ''.'' # e)"

definition basename :: "string \<Rightarrow> string \<Rightarrow> string" where
  "basename p ext =
     (let b = last_segment p
      in if ext \<noteq> [] \<and> length ext < length b \<and> drop (length b - length ext) b = ext
         then take (length b - length ext) b
         else b)"

definition tool_name :: "string \<Rightarrow> string" where
  "tool_name f = basename f (extname f)"

definition absolute :: "tools \<Rightarrow> string \<Rightarrow> string" where
  "absolute s r = targetFolder s @ ''/'' @ r"

section \<open>The Unit Loader\<close>

text \<open>
  \<^verbatim>\<open>dynamicImport\<close> (lines 181-195) asks the runtime for the specifier
  \<^verbatim>\<open>${filePath}?t=${Date.now()}\<close>. The specifier is built when the call is made; the
  runtime answers from its module map when it has loaded that very specifier before, and
  evaluates the file's current content otherwise. A file that is not there rejects with
  an \<^verbatim>\<open>Error\<close>. The \<^verbatim>\<open>try\<close> around the \<^verbatim>\<open>return import(...)\<close> does not await the
  promise, so its \<^verbatim>\<open>catch\<close> never sees a rejected import: the rejection reaches the caller
  as it is and nothing is logged there.
\<close>

definition digit_char :: "nat \<Rightarrow> char" where
  "digit_char n = ''0123456789'' ! (n mod 10)"

fun show_nat :: "nat \<Rightarrow> string" where
  "show_nat n = (if n < 10 then [digit_char n] else show_nat (n div 10) @ [digit_char n])"

declare show_nat.simps [simp del]

definition import_key :: "string \<Rightarrow> nat \<Rightarrow> string" where
  "import_key filePath t = filePath @ ''?t='' @ show_nat t"

definition file_at :: "tools \<Rightarrow> world \<Rightarrow> string \<Rightarrow> module_result option" where
  "file_at s w p = map_of (map (\<lambda>(r, m). (absolute s r, m)) (dir w)) p"

definition host_import :: "tools \<Rightarrow> string \<Rightarrow> string \<Rightarrow> world \<Rightarrow> module_result \<times> world" where
  "host_import s key filePath w =
     (let w0 = w\<lparr>importCount := importCount w + 1\<rparr>
      in case map_of (modules w) key of
           Some r \<Rightarrow> (r, w0)
         | None \<Rightarrow>
             (case file_at s w filePath of
                None \<Rightarrow> (Throws (JErr (''Cannot find module '' @ filePath)), w0)
              | Some r \<Rightarrow>
                  (r, w0\<lparr>modules := modules w @ [(key, r)], evalCount := evalCount w + 1\<rparr>)))"

definition dynamicImport :: "string \<Rightarrow> tools \<Rightarrow> world \<Rightarrow> module_result \<times> world" where
  "dynamicImport filePath s w = host_import s (import_key filePath (now w)) filePath w"

fun join_lines :: "string list \<Rightarrow> string" where
  "join_lines [] = []"
| "join_lines [l] = l"
| "join_lines (l # ls) = l @ [CHR 0x0A] @ join_lines ls"

definition buildDescription :: "string \<Rightarrow> string \<Rightarrow> string" where
  "buildDescription d filePath =
     join_lines
       [d, [], ''---'', ''Source: '' @ filePath,
        ''Note: This tool is dynamically loaded. Changes to this file will immediately affect this tool's behavior. You can read and modify this file to change the tool.'']"

fun str_of :: "jsval \<Rightarrow> string" where
  "str_of (JStr x) = x"
| "str_of _ = []"

text \<open>
  Lines 150-168 and 173-178 of \<^verbatim>\<open>loadToolFromFile\<close>: the three checks on the exports,
  in the source's order, and the definition built when they pass.
\<close>

definition checkExports :: "string \<Rightarrow> exports \<Rightarrow> jsval + tool" where
  "checkExports filePath m =
     (if \<not> truthy (get_export m ''description'')
           \<or> typeof (get_export m ''description'') \<noteq> ''string''
      then Inl (JErr (''Tool file '' @ filePath @ '' must export a 'description' string''))
      else if \<not> truthy (get_export m ''inputSchema'')
           \<or> typeof (get_export m ''inputSchema'') \<noteq> ''object''
      then Inl (JErr (''Tool file '' @ filePath @ '' must export an 'inputSchema' object''))
      else if \<not> truthy (get_export m ''default'')
           \<or> typeof (get_export m ''default'') \<noteq> ''function''
      then Inl (JErr (''Tool file '' @ filePath
                        @ '' must have a default export function (execute)''))
      else Inr \<lparr>name = tool_name filePath,
                description = buildDescription (str_of (get_export m ''description'')) filePath,
                inputSchema = get_export m ''inputSchema'',
                execute = get_export m ''default''\<rparr>)"

text \<open>
  What \<^verbatim>\<open>loadToolFromFile\<close> (lines 148-179) does once its import has settled with \<open>r\<close>:
  a rejected import is rethrown as it is, a failed check throws, and a success records
  the path under the tool's name (line 171) before returning the definition.
\<close>

definition loadToolFromFile_resume ::
  "string \<Rightarrow> module_result \<Rightarrow> tools \<Rightarrow> (jsval + tool) \<times> tools" where
  "loadToolFromFile_resume filePath r s =
     (case r of
        Throws e \<Rightarrow> (Inl e, s)
      | Exports m \<Rightarrow>
          (case checkExports filePath m of
             Inl e \<Rightarrow> (Inl e, s)
           | Inr t \<Rightarrow>
               (Inr t, s\<lparr>toolPathMap := map_set (tool_name filePath) filePath (toolPathMap s)\<rparr>)))"

definition loadToolFromFile ::
  "string \<Rightarrow> tools \<Rightarrow> world \<Rightarrow> (jsval + tool) \<times> tools \<times> world" where
  "loadToolFromFile filePath s w =
     (let (r, w1) = dynamicImport filePath s w;
          (res, s1) = loadToolFromFile_resume filePath r s
      in (res, s1, w1))"

section \<open>The registry: loadTools\<close>

text \<open>
  \<^verbatim>\<open>resolveToolFiles\<close> (lines 137-146): the files under the target folder whose relative
  path the glob matches, as absolute paths. The scan is taken to accept what \<^verbatim>\<open>match\<close>
  accepts; where the runtime's scan is narrower (it skips dot files), the statements below
  still read as written, since they are about the list the scan returns.
\<close>

definition resolveToolFiles :: "tools \<Rightarrow> world \<Rightarrow> string list \<times> world" where
  "resolveToolFiles s w =
     (map (absolute s) (filter (globPattern s) (map fst (dir w))),
      w\<lparr>scanCount := scanCount w + 1\<rparr>)"

text \<open>
  \<^verbatim>\<open>loadTools\<close> (lines 39-73) suspends twice: at the \<^verbatim>\<open>await\<close> of the scan (line 46) and
  at the \<^verbatim>\<open>await Promise.all\<close> of the imports (line 63). Between the pieces the watcher's
  callback can run. The pieces are:
  \<^item> \<open>loadTools_enter\<close>, lines 41-44: the cache test;
  \<^item> \<open>resolveToolFiles\<close>: the scan reads the folder;
  \<^item> \<open>loadTools_scanned\<close>, lines 47-61: both maps are cleared and every import is started,
    each with the specifier built at that moment;
  \<^item> \<open>loadTools_loaded\<close>, lines 54-72: each import settles and its chain runs
    (\<open>settle\<close>, in the order of the file list), then \<^verbatim>\<open>Promise.all\<close> resolves or rejects and
    the results are cached.

  In the code the chains run in the order in which the imports complete. The results of
  \<^verbatim>\<open>Promise.all\<close> are in list order either way, and so are the cache writes of lines
  67-69; only the path index of line 171 can end at another file when two files share a
  base name. Nothing below speaks of the path index after a batch.
\<close>

definition loadTools_enter :: "tools \<Rightarrow> world \<Rightarrow> tool list option \<times> world" where
  "loadTools_enter s w =
     (if cacheValid s \<and> length (toolCache s) > 0
      then (Some (map_values (toolCache s)),
            log_to DEBUG ''Returning cached tools''
              [(''count'', JNum (int (length (toolCache s))))] w)
      else (None, w))"

definition loadTools_scanned ::
  "string list \<Rightarrow> tools \<Rightarrow> world \<Rightarrow> (string \<times> string) list \<times> tools \<times> world" where
  "loadTools_scanned files s w =
     (map (\<lambda>f. (f, import_key f (now w))) files,
      s\<lparr>toolCache := [], toolPathMap := []\<rparr>,
      log_to DEBUG ''Resolved tool files'' [(''count'', JNum (int (length files)))] w)"

text \<open>
  The \<^verbatim>\<open>.catch\<close> handler of lines 55-60. Its argument
  \<^verbatim>\<open>{ file: filePath, err: (err as Error).message }\<close> is evaluated before the logger is
  called: when reading \<^verbatim>\<open>.message\<close> throws, nothing is logged and the promise of this
  file is rejected with the \<^verbatim>\<open>TypeError\<close>. Otherwise the promise is fulfilled with
  \<^verbatim>\<open>undefined\<close> (\<open>None\<close>).
\<close>

definition catch_and_log ::
  "string \<Rightarrow> jsval + tool \<Rightarrow> world \<Rightarrow> (jsval + tool option) \<times> world" where
  "catch_and_log filePath res w =
     (case res of
        Inr t \<Rightarrow> (Inr (Some t), w)
      | Inl err \<Rightarrow>
          (case get_message err of
             Inl thrown \<Rightarrow> (Inl thrown, w)
           | Inr msg \<Rightarrow>
               (Inr None,
                log_to ERROR ''Failed to load tool from file''
                  [(''file'', JStr filePath), (''err'', msg)] w)))"

fun settle ::
  "(string \<times> string) list \<Rightarrow> tools \<Rightarrow> world \<Rightarrow> (jsval + tool option) list \<times> tools \<times> world" where
  "settle [] s w = ([], s, w)"
| "settle (p # ps) s w =
     (let (r, w1) = host_import s (snd p) (fst p) w;
          (res, s1) = loadToolFromFile_resume (fst p) r s;
          (out, w2) = catch_and_log (fst p) res w1;
          (outs, s2, w3) = settle ps s1 w2
      in (out # outs, s2, w3))"

text \<open>\<^verbatim>\<open>Promise.all\<close>: rejected with the first rejection, else the list of values.\<close>

fun promise_all :: "('e + 'a) list \<Rightarrow> 'e + 'a list" where
  "promise_all [] = Inr []"
| "promise_all (Inl e # outs) = Inl e"
| "promise_all (Inr x # outs) =
     (case promise_all outs of Inl e \<Rightarrow> Inl e | Inr xs \<Rightarrow> Inr (x # xs))"

text \<open>\<^verbatim>\<open>results.filter(Boolean)\<close>: a tool definition is an object, hence truthy.\<close>

fun filter_Boolean :: "tool option list \<Rightarrow> tool list" where
  "filter_Boolean [] = []"
| "filter_Boolean (None # rs) = filter_Boolean rs"
| "filter_Boolean (Some t # rs) = t # filter_Boolean rs"

fun cache_all :: "tool list \<Rightarrow> (string \<times> tool) list \<Rightarrow> (string \<times> tool) list" where
  "cache_all [] m = m"
| "cache_all (t # ts) m = cache_all ts (map_set (name t) t m)"

definition loadTools_loaded ::
  "(string \<times> string) list \<Rightarrow> tools \<Rightarrow> world \<Rightarrow> (jsval + tool list) \<times> tools \<times> world" where
  "loadTools_loaded pending s w =
     (let (outs, s1, w1) = settle pending s w
      in case promise_all outs of
           Inl e \<Rightarrow> (Inl e, s1, w1)
         | Inr results \<Rightarrow>
             (let ts = filter_Boolean results
              in (Inr ts,
                  s1\<lparr>toolCache := cache_all ts (toolCache s1), cacheValid := True\<rparr>,
                  w1)))"

text \<open>A call of \<^verbatim>\<open>loadTools\<close> that nothing interrupts.\<close>

definition loadTools :: "tools \<Rightarrow> world \<Rightarrow> (jsval + tool list) \<times> tools \<times> world" where
  "loadTools s w =
     (case loadTools_enter s w of
        (Some cached, w0) \<Rightarrow> (Inr cached, s, w0)
      | (None, w0) \<Rightarrow>
          (let (files, w1) = resolveToolFiles s w0;
               (pending, s2, w2) = loadTools_scanned files s w1
           in loadTools_loaded pending s2 w2))"

section \<open>The registry: loadTool\<close>

text \<open>
  Lines 83-98 of \<^verbatim>\<open>loadTool\<close>: the path index is asked first; \<^verbatim>\<open>!filePath\<close> holds for a
  missing entry and for the empty string. Then the folder is scanned for the first file
  whose base name is the requested name; finding none throws.
\<close>

definition scan_for :: "string \<Rightarrow> tools \<Rightarrow> world \<Rightarrow> (jsval + string) \<times> tools \<times> world" where
  "scan_for n s w =
     (let (files, w1) = resolveToolFiles s w
      in case find (\<lambda>f. tool_name f = n) files of
           None \<Rightarrow> (Inl (JErr (''Tool not found: '' @ n)), s, w1)
         | Some p \<Rightarrow>
             if p = [] then (Inl (JErr (''Tool not found: '' @ n)), s, w1)
             else (Inr p, s\<lparr>toolPathMap := map_set n p (toolPathMap s)\<rparr>, w1))"

definition resolve_path :: "string \<Rightarrow> tools \<Rightarrow> world \<Rightarrow> (jsval + string) \<times> tools \<times> world" where
  "resolve_path n s w =
     (case map_of (toolPathMap s) n of
        None \<Rightarrow> scan_for n s w
      | Some p \<Rightarrow> if p = [] then scan_for n s w else (Inr p, s, w))"

text \<open>Lines 83-102: what \<^verbatim>\<open>loadTool\<close> does when the cache does not answer.\<close>

definition loadTool_uncached ::
  "string \<Rightarrow> tools \<Rightarrow> world \<Rightarrow> (jsval + tool) \<times> tools \<times> world" where
  "loadTool_uncached n s w =
     (case resolve_path n s w of
        (Inl e, s1, w1) \<Rightarrow> (Inl e, s1, w1)
      | (Inr p, s1, w1) \<Rightarrow>
          (case loadToolFromFile p s1 w1 of
             (Inl e, s2, w2) \<Rightarrow> (Inl e, s2, w2)
           | (Inr t, s2, w2) \<Rightarrow> (Inr t, s2\<lparr>toolCache := map_set n t (toolCache s2)\<rparr>, w2)))"

text \<open>\<^verbatim>\<open>loadTool\<close> (lines 75-103), run without interruption.\<close>

definition loadTool :: "string \<Rightarrow> tools \<Rightarrow> world \<Rightarrow> (jsval + tool) \<times> tools \<times> world" where
  "loadTool n s w =
     (case map_of (toolCache s) n of
        Some t \<Rightarrow>
          if cacheValid s
          then (Inr t, s, log_to DEBUG ''Returning cached tool'' [(''name'', JStr n)] w)
          else loadTool_uncached n s w
      | None \<Rightarrow> loadTool_uncached n s w)"

section \<open>Change notification and the watcher\<close>

definition onChange :: "(world \<Rightarrow> (jsval + unit) \<times> world) \<Rightarrow> tools \<Rightarrow> tools" where
  "onChange callback s = s\<lparr>onChangeCallback := Some callback\<rparr>"

text \<open>
  \<^verbatim>\<open>onFileChange\<close> (lines 207-221). The subscriber is called directly, with no
  \<^verbatim>\<open>try\<close> around the call: what it throws leaves \<^verbatim>\<open>onFileChange\<close> (\<open>Inl\<close>).
\<close>

definition onFileChange ::
  "string \<Rightarrow> string \<Rightarrow> tools \<Rightarrow> world \<Rightarrow> (jsval + unit) \<times> tools \<times> world" where
  "onFileChange event filename s w =
     (if \<not> globPattern s filename then (Inr (), s, w)
      else
        (let w1 = log_to INFO ''File changed''
                    [(''event'', JStr event), (''filename'', JStr filename)] w;
             s1 = s\<lparr>cacheValid := False\<rparr>
         in case onChangeCallback s1 of
              None \<Rightarrow> (Inr (), s1, w1)
            | Some callback \<Rightarrow> (case callback w1 of (res, w2) \<Rightarrow> (res, s1, w2))))"

text \<open>The listener given to \<^verbatim>\<open>fs.watch\<close> (lines 116-120); \<^verbatim>\<open>filename\<close> may be null.\<close>

definition watch_listener ::
  "string \<Rightarrow> string option \<Rightarrow> tools \<Rightarrow> world \<Rightarrow> (jsval + unit) \<times> tools \<times> world" where
  "watch_listener event filename s w =
     (case filename of
        None \<Rightarrow> (Inr (), s, w)
      | Some f \<Rightarrow> if f = [] then (Inr (), s, w) else onFileChange event f s w)"

text \<open>
  \<^verbatim>\<open>startWatching\<close> (lines 109-127) opens a new watcher and stores its handle in the
  field, whatever the field held. \<^verbatim>\<open>stopWatching\<close> (lines 129-135) closes the watcher
  the field holds, if any. The \<^verbatim>\<open>error\<close> handler attached at line 124 only logs; a
  failing watcher is not part of this model.
\<close>

definition startWatching :: "tools \<Rightarrow> world \<Rightarrow> tools \<times> world" where
  "startWatching s w =
     (let w1 = log_to INFO ''Watching for changes'' [(''targetFolder'', JStr (targetFolder s))] w
      in (s\<lparr>watcher := Some (nextWatcher w1)\<rparr>,
          w1\<lparr>watchers := watchers w1 @ [nextWatcher w1], nextWatcher := nextWatcher w1 + 1\<rparr>))"

definition stopWatching :: "tools \<Rightarrow> world \<Rightarrow> tools \<times> world" where
  "stopWatching s w =
     (case watcher s of
        None \<Rightarrow> (s, w)
      | Some h \<Rightarrow>
          (s\<lparr>watcher := None\<rparr>,
           log_to INFO ''Stopped watching for changes'' []
             (w\<lparr>watchers := filter (\<lambda>h'. h' \<noteq> h) (watchers w)\<rparr>)))"

text \<open>
  A change under the target folder is reported once by every open watcher: each runs the
  listener it was opened with. The result lists what each run of the listener returned
  or threw.
\<close>

fun deliver ::
  "nat list \<Rightarrow> string \<Rightarrow> string option \<Rightarrow> tools \<Rightarrow> world \<Rightarrow> (jsval + unit) list \<times> tools \<times> world" where
  "deliver [] event filename s w = ([], s, w)"
| "deliver (h # hs) event filename s w =
     (let (res, s1, w1) = watch_listener event filename s w;
          (ress, s2, w2) = deliver hs event filename s1 w1
      in (res # ress, s2, w2))"

definition fs_event ::
  "string \<Rightarrow> string option \<Rightarrow> tools \<Rightarrow> world \<Rightarrow> (jsval + unit) list \<times> tools \<times> world" where
  "fs_event event filename s w = deliver (watchers w) event filename s w"

section \<open>The always-rescan variant\<close>

text \<open>
  The second \<^verbatim>\<open>Tools\<close> class of the file (lines 237-406) keeps no cache. Its
  \<^verbatim>\<open>loadToolFromFile\<close> (lines 337-365) is the cached one without the path index, and its
  \<^verbatim>\<open>loadTools\<close> (lines 255-279) joins the loads with \<^verbatim>\<open>Promise.allSettled\<close> and logs
  \<^verbatim>\<open>result.reason?.message || result.reason\<close> for each rejected one.
\<close>

definition loadToolFromFile_rescan :: "string \<Rightarrow> module_result \<Rightarrow> jsval + tool" where
  "loadToolFromFile_rescan filePath r =
     (case r of Throws e \<Rightarrow> Inl e | Exports m \<Rightarrow> checkExports filePath m)"

fun settle_rescan ::
  "(string \<times> string) list \<Rightarrow> tools \<Rightarrow> world \<Rightarrow> (string \<times> (jsval + tool)) list \<times> world" where
  "settle_rescan [] s w = ([], w)"
| "settle_rescan (p # ps) s w =
     (let (r, w1) = host_import s (snd p) (fst p) w;
          (outs, w2) = settle_rescan ps s w1
      in ((fst p, loadToolFromFile_rescan (fst p) r) # outs, w2))"

fun collect_rescan :: "(string \<times> (jsval + tool)) list \<Rightarrow> world \<Rightarrow> tool list \<times> world" where
  "collect_rescan [] w = ([], w)"
| "collect_rescan ((f, Inr t) # outs) w =
     (let (ts, w1) = collect_rescan outs w in (t # ts, w1))"
| "collect_rescan ((f, Inl reason) # outs) w =
     collect_rescan outs
       (log_to ERROR ''Failed to load tool''
          [(''file'', JStr f), (''err'', message_or_self reason)] w)"

definition loadTools_rescan :: "tools \<Rightarrow> world \<Rightarrow> (jsval + tool list) \<times> world" where
  "loadTools_rescan s w =
     (let (files, w1) = resolveToolFiles s w;
          w2 = log_to DEBUG ''Resolved tool files'' [(''count'', JNum (int (length files)))] w1;
          (outs, w3) = settle_rescan (map (\<lambda>f. (f, import_key f (now w2))) files) s w2;
          (ts, w4) = collect_rescan outs w3
      in (Inr ts, w4))"

section \<open>A folder, a registry and a world to run the model on\<close>

text \<open>
  A glob in the manner of the default \<^verbatim>\<open>**/*.ts\<close>, a module with the three exports a
  tool file needs, the registry as its constructor leaves it (lines 25-37) on the target
  folder \<^verbatim>\<open>/t\<close>, and a world holding the given files.
\<close>

definition ts_glob :: "string \<Rightarrow> bool" where
  "ts_glob p = (extname p = ''.ts'')"

definition valid_module :: "string \<Rightarrow> module_result" where
  "valid_module d =
     Exports [(''description'', JStr d), (''inputSchema'', JObj 0), (''default'', JFun 0)]"

definition new_tools :: tools where
  "new_tools =
     \<lparr>targetFolder = ''/t'', globPattern = ts_glob, toolCache = [], toolPathMap = [],
      cacheValid = False, watcher = None, onChangeCallback = None\<rparr>"

definition new_world :: "(string \<times> module_result) list \<Rightarrow> world" where
  "new_world files =
     \<lparr>dir = files, modules = [], now = 1000, watchers = [], nextWatcher = 0,
      logged = [], scanCount = 0, importCount = 0, evalCount = 0\<rparr>"

definition hello_tool :: tool where
  "hello_tool =
     \<lparr>name = ''hello'', description = ''Says hello'', inputSchema = JObj 0, execute = JFun 0\<rparr>"



section \<open>The claims' words as predicates\<close>

text \<open>
  The kinds of value the loader's contract names: a string, an object-shaped value (an
  object, not \<^verbatim>\<open>null\<close>, not a function), a callable.
\<close>

fun is_string :: "jsval \<Rightarrow> bool" where
  "is_string (JStr _) = True"
| "is_string _ = False"

fun object_shaped :: "jsval \<Rightarrow> bool" where
  "object_shaped (JObj _) = True"
| "object_shaped (JErr _) = True"
| "object_shaped _ = False"

fun callable :: "jsval \<Rightarrow> bool" where
  "callable (JFun _) = True"
| "callable _ = False"

text \<open>
  The loader's failure condition as the specification words it: the import fails, or
  \<^verbatim>\<open>description\<close> is missing or not a string, or \<^verbatim>\<open>inputSchema\<close> is missing or not
  object-shaped, or the default export is missing or not callable. A missing export
  reads as \<^verbatim>\<open>undefined\<close>, which is none of the three kinds.
\<close>

definition spec_load_fails :: "module_result \<Rightarrow> bool" where
  "spec_load_fails r =
     (case r of
        Throws e \<Rightarrow> True
      | Exports m \<Rightarrow>
          \<not> is_string (get_export m ''description'')
          \<or> \<not> object_shaped (get_export m ''inputSchema'')
          \<or> \<not> callable (get_export m ''default''))"

text \<open>
  The loader's contract as the specification words it: a load fails exactly under that
  condition, and then with an error of the loader (an \<^verbatim>\<open>Error\<close> object); otherwise it
  returns a tool definition.
\<close>

fun is_error_object :: "jsval \<Rightarrow> bool" where
  "is_error_object (JErr _) = True"
| "is_error_object _ = False"

definition spec_load_contract :: "module_result \<Rightarrow> jsval + tool \<Rightarrow> bool" where
  "spec_load_contract r res =
     (case res of
        Inl e \<Rightarrow> is_error_object e \<and> spec_load_fails r
      | Inr t \<Rightarrow> \<not> spec_load_fails r)"

text \<open>The same condition with the empty description added.\<close>

definition load_rejected :: "module_result \<Rightarrow> bool" where
  "load_rejected r =
     (case r of
        Throws e \<Rightarrow> True
      | Exports m \<Rightarrow>
          \<not> is_string (get_export m ''description'')
          \<or> get_export m ''description'' = JStr []
          \<or> \<not> object_shaped (get_export m ''inputSchema'')
          \<or> \<not> callable (get_export m ''default''))"

text \<open>
  Two subscribers: one that throws, and one in the manner of \<^verbatim>\<open>Server.onToolsChanged\<close>,
  which logs and returns.
\<close>

definition failing_subscriber :: "world \<Rightarrow> (jsval + unit) \<times> world" where
  "failing_subscriber w = (Inl (JErr ''notify failed''), w)"

definition notifying_subscriber :: "world \<Rightarrow> (jsval + unit) \<times> world" where
  "notifying_subscriber w = (Inr (), log_to INFO ''Tools changed, notifying clients'' [] w)"

text \<open>
  The specification's "the name can be resolved to a matching file": some file the scan
  finds has the requested base name.
\<close>

definition resolvable :: "string \<Rightarrow> tools \<Rightarrow> world \<Rightarrow> bool" where
  "resolvable n s w = (\<exists>f \<in> set (fst (resolveToolFiles s w)). tool_name f = n)"

text \<open>
  What every entry of the two maps satisfies in a registry built by the operations above:
  a path is indexed under its own base name, a tool is cached under its own name.
\<close>

definition registry_ok :: "tools \<Rightarrow> bool" where
  "registry_ok s =
     (list_all (\<lambda>e. tool_name (snd e) = fst e) (toolPathMap s)
      \<and> list_all (\<lambda>e. name (snd e) = fst e) (toolCache s))"

text \<open>A tool file without a \<^verbatim>\<open>description\<close> export.\<close>

definition broken_module :: module_result where
  "broken_module = Exports [(''inputSchema'', JObj 0), (''default'', JFun 0)]"

section \<open>What the environment does\<close>

text \<open>
  A file is written (created or replaced), and time passes. \<open>loadTools_interrupted\<close> is
  a call of \<^verbatim>\<open>loadTools\<close> during which the environment acts once, while the call
  awaits its imports at line 63: the scan has delivered its file list and the imports are
  started, but the continuation of lines 64-72 has not run yet.
\<close>

definition edit_file :: "string \<Rightarrow> module_result \<Rightarrow> world \<Rightarrow> world" where
  "edit_file rel content w = w\<lparr>dir := map_set rel content (dir w)\<rparr>"

definition tick :: "nat \<Rightarrow> world \<Rightarrow> world" where
  "tick ms w = w\<lparr>now := now w + ms\<rparr>"

definition loadTools_interrupted ::
  "(tools \<Rightarrow> world \<Rightarrow> tools \<times> world) \<Rightarrow> tools \<Rightarrow> world
     \<Rightarrow> (jsval + tool list) \<times> tools \<times> world" where
  "loadTools_interrupted env s w =
     (case loadTools_enter s w of
        (Some cached, w0) \<Rightarrow> (Inr cached, s, w0)
      | (None, w0) \<Rightarrow>
          (let (files, w1) = resolveToolFiles s w0;
               (pending, s2, w2) = loadTools_scanned files s w1;
               (s3, w3) = env s2 w2
           in loadTools_loaded pending s3 w3))"

text \<open>
  The file \<^verbatim>\<open>extra.ts\<close> is created and every open watcher reports it; a registry
  watching a folder that holds \<^verbatim>\<open>hello.ts\<close>; a registry with a subscriber.
\<close>

definition file_added :: "tools \<Rightarrow> world \<Rightarrow> tools \<times> world" where
  "file_added s w =
     snd (fs_event ''rename'' (Some ''extra.ts'') s
            (edit_file ''extra.ts'' (valid_module ''Extra'') w))"

definition watching_start :: "tools \<times> world" where
  "watching_start =
     startWatching new_tools (new_world [(''hello.ts'', valid_module ''Says hello'')])"

definition watched_tools :: tools where
  "watched_tools = onChange notifying_subscriber new_tools"

section \<open>Outcomes of a batch\<close>

text \<open>
  What the \<^verbatim>\<open>.catch\<close> handler makes of one load, without the logging; and the tools of
  the files of a list that load, in the list's order.
\<close>

definition caught :: "jsval + tool \<Rightarrow> jsval + tool option" where
  "caught res =
     (case res of
        Inr t \<Rightarrow> Inr (Some t)
      | Inl err \<Rightarrow> (case get_message err of Inl thrown \<Rightarrow> Inl thrown | Inr msg \<Rightarrow> Inr None))"

definition successes :: "tools \<Rightarrow> world \<Rightarrow> string list \<Rightarrow> tool list" where
  "successes s w files =
     concat (map (\<lambda>f. case fst (loadToolFromFile f s w) of Inl e \<Rightarrow> [] | Inr t \<Rightarrow> [t]) files)"

text \<open>A folder with two tool files of the same base name.\<close>

definition twin_world :: world where
  "twin_world =
     new_world [(''a/hello.ts'', valid_module ''first''), (''b/hello.ts'', valid_module ''second'')]"

text \<open>What the \<^verbatim>\<open>.catch\<close> handler logs for one load.\<close>

definition report :: "string \<Rightarrow> jsval + tool \<Rightarrow> log_entry list" where
  "report f res =
     (case res of
        Inr t \<Rightarrow> []
      | Inl err \<Rightarrow>
          (case get_message err of
             Inl thrown \<Rightarrow> []
           | Inr msg \<Rightarrow>
               [(ERROR, ''Failed to load tool from file'', [(''file'', JStr f), (''err'', msg)])]))"

text \<open>A folder whose only tool file lacks its description.\<close>

definition failing_world :: world where
  "failing_world = new_world [(''broken.ts'', broken_module)]"

text \<open>A folder with a valid tool file and one that lacks its description.\<close>

definition mixed_world :: world where
  "mixed_world =
     new_world [(''hello.ts'', valid_module ''Says hello''), (''broken.ts'', broken_module)]"

section \<open>What the Unit Loader accepts\<close>

lemma truthy_string: "(truthy v \<and> typeof v = ''string'') = (is_string v \<and> v \<noteq> JStr [])"
  by (cases v) auto

lemma truthy_object: "(truthy v \<and> typeof v = ''object'') = object_shaped v"
  by (cases v) auto

lemma truthy_function: "(truthy v \<and> typeof v = ''function'') = callable v"
  by (cases v) auto

lemma checkExports_fails_iff:
  "isl (checkExports f m) =
     (\<not> is_string (get_export m ''description'') \<or> get_export m ''description'' = JStr []
      \<or> \<not> object_shaped (get_export m ''inputSchema'')
      \<or> \<not> callable (get_export m ''default''))"
proof -
  have d: "(\<not> truthy (get_export m ''description'')
              \<or> typeof (get_export m ''description'') \<noteq> ''string'')
           = (\<not> is_string (get_export m ''description'')
              \<or> get_export m ''description'' = JStr [])"
    using truthy_string [of "get_export m ''description''"] by blast
  have i: "(\<not> truthy (get_export m ''inputSchema'')
              \<or> typeof (get_export m ''inputSchema'') \<noteq> ''object'')
           = (\<not> object_shaped (get_export m ''inputSchema''))"
    using truthy_object [of "get_export m ''inputSchema''"] by blast
  have c: "(\<not> truthy (get_export m ''default'')
              \<or> typeof (get_export m ''default'') \<noteq> ''function'')
           = (\<not> callable (get_export m ''default''))"
    using truthy_function [of "get_export m ''default''"] by blast
  show ?thesis
    unfolding checkExports_def d i c by auto
qed

lemma checkExports_Inr:
  "checkExports f m = Inr t \<Longrightarrow>
     name t = tool_name f
     \<and> description t = buildDescription (str_of (get_export m ''description'')) f
     \<and> inputSchema t = get_export m ''inputSchema''
     \<and> execute t = get_export m ''default''"
  by (auto simp: checkExports_def split: if_splits)

lemma loadToolFromFile_fst:
  "fst (loadToolFromFile f s w) = fst (loadToolFromFile_resume f (fst (dynamicImport f s w)) s)"
  by (simp add: loadToolFromFile_def split: prod.splits)

lemma checkExports_Inl:
  assumes "checkExports f m = Inl e"
  shows "e = JErr (''Tool file '' @ f @
            (if \<not> is_string (get_export m ''description'') \<or> get_export m ''description'' = JStr []
             then '' must export a 'description' string''
             else if \<not> object_shaped (get_export m ''inputSchema'')
             then '' must export an 'inputSchema' object''
             else '' must have a default export function (execute)''))"
proof -
  have d: "(\<not> truthy (get_export m ''description'')
              \<or> typeof (get_export m ''description'') \<noteq> ''string'')
           = (\<not> is_string (get_export m ''description'')
              \<or> get_export m ''description'' = JStr [])"
    using truthy_string [of "get_export m ''description''"] by blast
  have i: "(\<not> truthy (get_export m ''inputSchema'')
              \<or> typeof (get_export m ''inputSchema'') \<noteq> ''object'')
           = (\<not> object_shaped (get_export m ''inputSchema''))"
    using truthy_object [of "get_export m ''inputSchema''"] by blast
  show ?thesis
    using assms unfolding checkExports_def d i
    by (auto split: if_splits)
qed

text \<open>
  C4, as the specification states it, fails twice. A module whose \<^verbatim>\<open>description\<close> is
  the empty string has the export, and it is a string, so the specification's failure
  condition does not hold; the loader throws all the same, because \<^verbatim>\<open>!mod.description\<close>
  (line 152) holds for the empty string. And a module whose evaluation throws \<^verbatim>\<open>null\<close>
  makes the load fail with \<^verbatim>\<open>null\<close> itself, which is no error object: line 149 awaits the
  import and nothing wraps what it was rejected with.
\<close>

theorem loadToolFromFile_contract_counterexample:
  "fst (dynamicImport ''/t/quiet.ts'' new_tools (new_world [(''quiet.ts'', valid_module [])]))
     = valid_module []
   \<and> \<not> spec_load_fails (valid_module [])
   \<and> isl (fst (loadToolFromFile ''/t/quiet.ts'' new_tools
                 (new_world [(''quiet.ts'', valid_module [])])))
   \<and> \<not> spec_load_contract (valid_module [])
        (fst (loadToolFromFile ''/t/quiet.ts'' new_tools
                 (new_world [(''quiet.ts'', valid_module [])])))
   \<and> fst (dynamicImport ''/t/bad.ts'' new_tools (new_world [(''bad.ts'', Throws JNull)]))
       = Throws JNull
   \<and> fst (loadToolFromFile ''/t/bad.ts'' new_tools (new_world [(''bad.ts'', Throws JNull)]))
       = Inl JNull
   \<and> \<not> spec_load_contract (Throws JNull)
        (fst (loadToolFromFile ''/t/bad.ts'' new_tools (new_world [(''bad.ts'', Throws JNull)])))"
  by (simp add: loadToolFromFile_def loadToolFromFile_resume_def dynamicImport_def host_import_def
      file_at_def absolute_def new_tools_def new_world_def valid_module_def spec_load_fails_def
      spec_load_contract_def get_export_def checkExports_def)

text \<open>
  C4, amended. For every file path, \<^verbatim>\<open>loadToolFromFile\<close> fails exactly when the import
  fails, or \<^verbatim>\<open>description\<close> is missing, not a string or the empty string, or
  \<^verbatim>\<open>inputSchema\<close> is missing or not an object-shaped value, or the default export is
  missing or not callable. For a failed check of the exports it fails with the loader's
  own error, an \<^verbatim>\<open>Error\<close> whose message names the file and the first export that is
  wrong, in the order description, inputSchema, default export. A failed import is
  rethrown as the value it was rejected with. Otherwise the result is a tool definition
  named after the file's base name, with the built description and the module's schema
  and default export.
\<close>

theorem loadToolFromFile_fails_iff:
  "case fst (loadToolFromFile f s w) of
     Inl e \<Rightarrow>
        load_rejected (fst (dynamicImport f s w))
        \<and> (case fst (dynamicImport f s w) of
              Throws v \<Rightarrow> e = v
            | Exports m \<Rightarrow>
                e = JErr (''Tool file '' @ f @
                     (if \<not> is_string (get_export m ''description'')
                         \<or> get_export m ''description'' = JStr []
                      then '' must export a 'description' string''
                      else if \<not> object_shaped (get_export m ''inputSchema'')
                      then '' must export an 'inputSchema' object''
                      else '' must have a default export function (execute)'')))
   | Inr t \<Rightarrow>
        \<not> load_rejected (fst (dynamicImport f s w))
        \<and> name t = tool_name f
        \<and> (\<exists>m. fst (dynamicImport f s w) = Exports m
               \<and> description t = buildDescription (str_of (get_export m ''description'')) f
               \<and> inputSchema t = get_export m ''inputSchema''
               \<and> execute t = get_export m ''default'')"
proof (cases "fst (dynamicImport f s w)")
  case (Throws v)
  then show ?thesis
    by (simp add: loadToolFromFile_fst loadToolFromFile_resume_def load_rejected_def)
next
  case (Exports m)
  show ?thesis
  proof (cases "checkExports f m")
    case (Inl e)
    then have "isl (checkExports f m)" by simp
    then have "load_rejected (Exports m)"
      by (simp add: checkExports_fails_iff load_rejected_def)
    with Exports Inl checkExports_Inl [OF Inl] show ?thesis
      by (simp add: loadToolFromFile_fst loadToolFromFile_resume_def)
  next
    case (Inr t)
    then have "\<not> isl (checkExports f m)" by simp
    then have "\<not> load_rejected (Exports m)"
      by (simp add: checkExports_fails_iff load_rejected_def)
    with Exports Inr checkExports_Inr [OF Inr] show ?thesis
      by (simp add: loadToolFromFile_fst loadToolFromFile_resume_def)
  qed
qed

theorem loadToolFromFile_fails_iff_witness:
  "fst (dynamicImport ''/t/hello.ts'' new_tools
          (new_world [(''hello.ts'', valid_module ''Says hello'')]))
     = valid_module ''Says hello''
   \<and> \<not> load_rejected (valid_module ''Says hello'')
   \<and> map_sum id name (fst (loadToolFromFile ''/t/hello.ts'' new_tools
        (new_world [(''hello.ts'', valid_module ''Says hello'')]))) = Inr ''hello''
   \<and> fst (dynamicImport ''/t/broken.ts'' new_tools (new_world [(''broken.ts'', broken_module)]))
       = broken_module
   \<and> load_rejected broken_module
   \<and> fst (loadToolFromFile ''/t/broken.ts'' new_tools (new_world [(''broken.ts'', broken_module)]))
       = Inl (JErr ''Tool file /t/broken.ts must export a 'description' string'')"
proof -
  have a: "fst (dynamicImport ''/t/hello.ts'' new_tools
          (new_world [(''hello.ts'', valid_module ''Says hello'')])) = valid_module ''Says hello''"
    by (simp add: dynamicImport_def host_import_def file_at_def absolute_def new_tools_def
        new_world_def)
  have b: "fst (dynamicImport ''/t/broken.ts'' new_tools (new_world [(''broken.ts'', broken_module)]))
       = broken_module"
    by (simp add: dynamicImport_def host_import_def file_at_def absolute_def new_tools_def
        new_world_def)
  have n: "tool_name ''/t/hello.ts'' = ''hello''"
    by (simp add: tool_name_def basename_def extname_def last_segment_def)
  have ra: "\<not> load_rejected (valid_module ''Says hello'')"
    by (simp add: load_rejected_def valid_module_def get_export_def)
  have rb: "load_rejected broken_module"
    by (simp add: load_rejected_def broken_module_def get_export_def)
  have gb: "get_export [(''inputSchema'', JObj 0), (''default'', JFun 0)] ''description'' = JUndefined"
    by (simp add: get_export_def)
  have h: "map_sum id name (fst (loadToolFromFile ''/t/hello.ts'' new_tools
        (new_world [(''hello.ts'', valid_module ''Says hello'')]))) = Inr ''hello''"
    using loadToolFromFile_fails_iff
        [of "''/t/hello.ts''" new_tools "new_world [(''hello.ts'', valid_module ''Says hello'')]",
         unfolded a] ra n
    by (auto split: sum.splits)
  have k: "fst (loadToolFromFile ''/t/broken.ts'' new_tools
             (new_world [(''broken.ts'', broken_module)]))
       = Inl (JErr ''Tool file /t/broken.ts must export a 'description' string'')"
    using loadToolFromFile_fails_iff
        [of "''/t/broken.ts''" new_tools "new_world [(''broken.ts'', broken_module)]",
         unfolded b] rb
    by (auto simp: broken_module_def gb split: sum.splits)
  from a b ra rb h k show ?thesis by simp
qed

section \<open>Notifying the subscriber\<close>

text \<open>
  C7, as stated, fails for a subscriber that throws: what it throws leaves
  \<^verbatim>\<open>onFileChange\<close> and the watcher's listener, and the log holds the change alone,
  with no report of the failure.
\<close>

theorem subscriber_failure_counterexample:
  "globPattern (onChange failing_subscriber new_tools) ''hello.ts''
   \<and> fst (onFileChange ''change'' ''hello.ts'' (onChange failing_subscriber new_tools)
            (new_world []))
       = Inl (JErr ''notify failed'')
   \<and> fst (watch_listener ''change'' (Some ''hello.ts'') (onChange failing_subscriber new_tools)
            (new_world []))
       = Inl (JErr ''notify failed'')
   \<and> logged (snd (snd (onFileChange ''change'' ''hello.ts''
         (onChange failing_subscriber new_tools) (new_world []))))
       = [(INFO, ''File changed'',
           [(''event'', JStr ''change''), (''filename'', JStr ''hello.ts'')])]"
  by (simp add: onFileChange_def watch_listener_def onChange_def failing_subscriber_def
      new_tools_def new_world_def ts_glob_def extname_def last_segment_def log_to_def)

text \<open>
  C7, amended. For every filesystem event whose file name passes the glob filter, the
  change is logged, the valid flag is cleared, and then the registered subscriber is
  called once, synchronously. The registry does not catch what the subscriber throws: the
  failure is the outcome of \<^verbatim>\<open>onFileChange\<close> and of the watcher's listener, with the
  flag already cleared.
\<close>

theorem onFileChange_calls_subscriber:
  assumes "globPattern s filename" and "filename \<noteq> []" and "onChangeCallback s = Some callback"
  shows "watch_listener event (Some filename) s w = onFileChange event filename s w
         \<and> onFileChange event filename s w =
             (fst (callback (log_to INFO ''File changed''
                      [(''event'', JStr event), (''filename'', JStr filename)] w)),
              s\<lparr>cacheValid := False\<rparr>,
              snd (callback (log_to INFO ''File changed''
                      [(''event'', JStr event), (''filename'', JStr filename)] w)))"
  using assms by (simp add: watch_listener_def onFileChange_def split: prod.splits)

theorem onFileChange_calls_subscriber_witness:
  "globPattern (onChange notifying_subscriber new_tools) ''hello.ts''
   \<and> ''hello.ts'' \<noteq> []
   \<and> onChangeCallback (onChange notifying_subscriber new_tools) = Some notifying_subscriber
   \<and> fst (watch_listener ''change'' (Some ''hello.ts'') (onChange notifying_subscriber new_tools)
            (new_world [])) = Inr ()
   \<and> cacheValid (fst (snd (watch_listener ''change'' (Some ''hello.ts'')
        (onChange notifying_subscriber new_tools) (new_world [])))) = False
   \<and> logged (snd (snd (watch_listener ''change'' (Some ''hello.ts'')
         (onChange notifying_subscriber new_tools) (new_world []))))
       = [(INFO, ''File changed'',
           [(''event'', JStr ''change''), (''filename'', JStr ''hello.ts'')]),
          (INFO, ''Tools changed, notifying clients'', [])]"
proof -
  have g: "globPattern (onChange notifying_subscriber new_tools) ''hello.ts''"
    by (simp add: onChange_def new_tools_def ts_glob_def extname_def last_segment_def)
  have n: "''hello.ts'' \<noteq> []" by simp
  have c: "onChangeCallback (onChange notifying_subscriber new_tools) = Some notifying_subscriber"
    by (simp add: onChange_def)
  show ?thesis
    using g c onFileChange_calls_subscriber [OF g n c, of "''change''" "new_world []"]
    by (simp add: notifying_subscriber_def log_to_def new_world_def)
qed

section \<open>Looking up one tool\<close>

lemma map_of_map_set: "map_of (map_set k v m) k' = (if k' = k then Some v else map_of m k')"
  by (induction m) auto


lemma list_all_map_set: "P (k, v) \<Longrightarrow> list_all P m \<Longrightarrow> list_all P (map_set k v m)"
  by (induction m) auto

lemma resolveToolFiles_nonempty: "f \<in> set (fst (resolveToolFiles s w)) \<Longrightarrow> f \<noteq> []"
  by (auto simp: resolveToolFiles_def absolute_def)

lemma find_None_iff_resolvable:
  "(find (\<lambda>f. tool_name f = n) (fst (resolveToolFiles s w)) = None) = (\<not> resolvable n s w)"
  by (auto simp: find_None_iff resolvable_def)

lemma scan_for_alt:
  "scan_for n s w =
     (case find (\<lambda>f. tool_name f = n) (fst (resolveToolFiles s w)) of
        None \<Rightarrow> (Inl (JErr (''Tool not found: '' @ n)), s, snd (resolveToolFiles s w))
      | Some p \<Rightarrow>
          if p = [] then (Inl (JErr (''Tool not found: '' @ n)), s, snd (resolveToolFiles s w))
          else (Inr p, s\<lparr>toolPathMap := map_set n p (toolPathMap s)\<rparr>,
                snd (resolveToolFiles s w)))"
  by (cases "resolveToolFiles s w") (simp add: scan_for_def split: option.splits)

lemma scan_for_Inl:
  "fst (scan_for n s w) = Inl e \<Longrightarrow> e = JErr (''Tool not found: '' @ n)"
  by (auto simp: scan_for_alt split: option.splits if_splits)

lemma scan_for_fails_iff: "isl (fst (scan_for n s w)) = (\<not> resolvable n s w)"
proof (cases "find (\<lambda>f. tool_name f = n) (fst (resolveToolFiles s w))")
  case None
  then show ?thesis
    using find_None_iff_resolvable [of n s w]
    by (simp add: scan_for_alt)
next
  case (Some p)
  then have "p \<in> set (fst (resolveToolFiles s w))"
    by (auto simp: find_Some_iff)
  then have "p \<noteq> []" by (rule resolveToolFiles_nonempty)
  with Some show ?thesis
    using find_None_iff_resolvable [of n s w]
    by (simp add: scan_for_alt)
qed

lemma scan_for_Inr:
  "scan_for n s w = (Inr p, s1, w1) \<Longrightarrow>
     tool_name p = n \<and> p \<in> set (fst (resolveToolFiles s w))
     \<and> s1 = s\<lparr>toolPathMap := map_set n p (toolPathMap s)\<rparr> \<and> w1 = snd (resolveToolFiles s w)"
  by (auto simp: scan_for_alt find_Some_iff split: option.splits if_splits)

lemma scan_for_find:
  "scan_for n s w = (Inr p, s1, w1) \<Longrightarrow>
     find (\<lambda>f. tool_name f = n) (fst (resolveToolFiles s w)) = Some p"
  by (auto simp: scan_for_alt split: option.splits if_splits)

lemma resolve_path_Inl:
  "fst (resolve_path n s w) = Inl e \<Longrightarrow> e = JErr (''Tool not found: '' @ n)"
  by (auto simp: resolve_path_def dest: scan_for_Inl split: option.splits if_splits)

lemma resolve_path_fails_iff:
  "isl (fst (resolve_path n s w)) =
     ((map_of (toolPathMap s) n = None \<or> map_of (toolPathMap s) n = Some [])
      \<and> \<not> resolvable n s w)"
  by (auto simp: resolve_path_def scan_for_fails_iff split: option.splits)

lemma loadTool_uncached_fst:
  "fst (loadTool_uncached n s w) =
     (case resolve_path n s w of
        (Inl e, s1, w1) \<Rightarrow> Inl e
      | (Inr p, s1, w1) \<Rightarrow> fst (loadToolFromFile p s1 w1))"
  by (auto simp: loadTool_uncached_def split: prod.splits sum.splits)

text \<open>
  C5, as stated, fails for a name that resolves to a file the loader rejects: the file
  \<^verbatim>\<open>broken.ts\<close> is there and matches, and \<^verbatim>\<open>loadTool("broken")\<close> fails, with the
  loader's error and not with "Tool not found".
\<close>

theorem loadTool_not_found_counterexample:
  "resolvable ''broken'' new_tools
     (new_world [(''hello.ts'', valid_module ''Says hello''), (''broken.ts'', broken_module)])
   \<and> fst (loadTool ''broken'' new_tools
        (new_world [(''hello.ts'', valid_module ''Says hello''), (''broken.ts'', broken_module)]))
      = Inl (JErr (''Tool file /t/broken.ts must export a 'description' string''))"
  by (simp add: resolvable_def resolveToolFiles_def loadTool_def loadTool_uncached_def
      resolve_path_def scan_for_def loadToolFromFile_def loadToolFromFile_resume_def
      dynamicImport_def host_import_def file_at_def absolute_def checkExports_def get_export_def
      new_tools_def new_world_def ts_glob_def extname_def last_segment_def tool_name_def
      basename_def valid_module_def broken_module_def)

text \<open>
  C5, amended. A name cached in a valid cache is returned without failure. Otherwise,
  when the path index has no entry for the name and no scanned file has it as base name,
  \<^verbatim>\<open>loadTool\<close> fails with "Tool not found: " followed by the name; and when the name
  resolves to a path (from the index, or the first scanned file with that base name),
  \<^verbatim>\<open>loadTool\<close> returns what the Unit Loader returns for that path, so it fails exactly
  when the loader fails there, with the loader's error.
\<close>

theorem loadTool_outcome:
  "(cacheValid s \<and> map_of (toolCache s) n = Some t \<longrightarrow> fst (loadTool n s w) = Inr t)
   \<and> (\<not> (cacheValid s \<and> map_has n (toolCache s)) \<longrightarrow>
        (if (map_of (toolPathMap s) n = None \<or> map_of (toolPathMap s) n = Some [])
            \<and> \<not> resolvable n s w
         then fst (loadTool n s w) = Inl (JErr (''Tool not found: '' @ n))
         else (\<exists>p s1 w1. resolve_path n s w = (Inr p, s1, w1)
                 \<and> (map_of (toolPathMap s) n = Some p
                     \<or> find (\<lambda>f. tool_name f = n) (fst (resolveToolFiles s w)) = Some p)
                 \<and> fst (loadTool n s w) = fst (loadToolFromFile p s1 w1))))"
proof (intro conjI impI)
  assume "cacheValid s \<and> map_of (toolCache s) n = Some t"
  then show "fst (loadTool n s w) = Inr t"
    by (simp add: loadTool_def)
next
  assume miss: "\<not> (cacheValid s \<and> map_has n (toolCache s))"
  then have un: "loadTool n s w = loadTool_uncached n s w"
    by (auto simp: loadTool_def map_has_def split: option.splits)
  show "if (map_of (toolPathMap s) n = None \<or> map_of (toolPathMap s) n = Some [])
            \<and> \<not> resolvable n s w
         then fst (loadTool n s w) = Inl (JErr (''Tool not found: '' @ n))
         else (\<exists>p s1 w1. resolve_path n s w = (Inr p, s1, w1)
                 \<and> (map_of (toolPathMap s) n = Some p
                     \<or> find (\<lambda>f. tool_name f = n) (fst (resolveToolFiles s w)) = Some p)
                 \<and> fst (loadTool n s w) = fst (loadToolFromFile p s1 w1))"
  proof (cases "isl (fst (resolve_path n s w))")
    case True
    then obtain e where e: "fst (resolve_path n s w) = Inl e"
      by (cases "fst (resolve_path n s w)") auto
    then have "e = JErr (''Tool not found: '' @ n)" by (rule resolve_path_Inl)
    with e have "fst (loadTool n s w) = Inl (JErr (''Tool not found: '' @ n))"
      unfolding un loadTool_uncached_fst by (auto split: prod.splits)
    with True show ?thesis
      by (simp add: resolve_path_fails_iff)
  next
    case False
    then have nu: "\<not> ((map_of (toolPathMap s) n = None \<or> map_of (toolPathMap s) n = Some [])
            \<and> \<not> resolvable n s w)"
      by (simp add: resolve_path_fails_iff)
    from False obtain p s1 w1 where r: "resolve_path n s w = (Inr p, s1, w1)"
      by (cases "resolve_path n s w"; cases "fst (resolve_path n s w)") auto
    then have l: "fst (loadTool n s w) = fst (loadToolFromFile p s1 w1)"
      unfolding un loadTool_uncached_fst by simp
    have "map_of (toolPathMap s) n = Some p
            \<or> find (\<lambda>f. tool_name f = n) (fst (resolveToolFiles s w)) = Some p"
      using r by (auto simp: resolve_path_def dest: scan_for_find split: option.splits if_splits)
    with r l nu show ?thesis
      by auto
  qed
qed

theorem loadTool_outcome_witness:
  "\<not> (cacheValid new_tools \<and> map_has ''missing'' (toolCache new_tools))
   \<and> map_of (toolPathMap new_tools) ''missing'' = None
   \<and> \<not> resolvable ''missing'' new_tools (new_world [(''hello.ts'', valid_module ''Says hello'')])
   \<and> fst (loadTool ''missing'' new_tools (new_world [(''hello.ts'', valid_module ''Says hello'')]))
       = Inl (JErr ''Tool not found: missing'')
   \<and> cacheValid (new_tools\<lparr>toolCache := [(''hello'', hello_tool)], cacheValid := True\<rparr>)
   \<and> map_of (toolCache (new_tools\<lparr>toolCache := [(''hello'', hello_tool)], cacheValid := True\<rparr>))
        ''hello'' = Some hello_tool
   \<and> fst (loadTool ''hello'' (new_tools\<lparr>toolCache := [(''hello'', hello_tool)], cacheValid := True\<rparr>)
            (new_world [])) = Inr hello_tool"
proof -
  have m: "\<not> (cacheValid new_tools \<and> map_has ''missing'' (toolCache new_tools))"
    by (simp add: new_tools_def)
  have p: "map_of (toolPathMap new_tools) ''missing'' = None"
    by (simp add: new_tools_def)
  have r: "\<not> resolvable ''missing'' new_tools (new_world [(''hello.ts'', valid_module ''Says hello'')])"
    by (simp add: resolvable_def resolveToolFiles_def new_tools_def new_world_def ts_glob_def
        extname_def last_segment_def absolute_def tool_name_def basename_def)
  have h: "cacheValid (new_tools\<lparr>toolCache := [(''hello'', hello_tool)], cacheValid := True\<rparr>)
     \<and> map_of (toolCache (new_tools\<lparr>toolCache := [(''hello'', hello_tool)], cacheValid := True\<rparr>))
        ''hello'' = Some hello_tool"
    by simp
  show ?thesis
    using m p r h
      loadTool_outcome [of new_tools "''missing''" hello_tool
        "new_world [(''hello.ts'', valid_module ''Says hello'')]"]
      loadTool_outcome [of "new_tools\<lparr>toolCache := [(''hello'', hello_tool)], cacheValid := True\<rparr>"
        "''hello''" hello_tool "new_world []"]
    by simp
qed

section \<open>What a single-tool load changes\<close>

lemma host_import_scanCount: "scanCount (snd (host_import s k f w)) = scanCount w"
  by (simp add: host_import_def Let_def split: option.splits)

lemma catch_and_log_scanCount: "scanCount (snd (catch_and_log f res w)) = scanCount w"
  by (simp add: catch_and_log_def log_to_def split: sum.splits)

lemma settle_scanCount: "scanCount (snd (snd (settle ps s w))) = scanCount w"
  by (induction ps arbitrary: s w)
    (simp_all add: case_prod_beta Let_def host_import_scanCount catch_and_log_scanCount)

lemma loadTools_loaded_scanCount:
  "scanCount (snd (snd (loadTools_loaded ps s w))) = scanCount w"
  using settle_scanCount [of ps s w]
  by (simp add: loadTools_loaded_def case_prod_beta Let_def split: sum.splits)

lemma loadTools_rescans:
  assumes "\<not> cacheValid s"
  shows "scanCount (snd (snd (loadTools s w))) = Suc (scanCount w)"
  using assms
  by (simp add: loadTools_def loadTools_enter_def resolveToolFiles_def loadTools_scanned_def
      loadTools_loaded_scanCount log_to_def)

lemma loadToolFromFile_Inr:
  assumes "loadToolFromFile f s w = (Inr t, s1, w1)"
  shows "name t = tool_name f
     \<and> s1 = s\<lparr>toolPathMap := map_set (tool_name f) f (toolPathMap s)\<rparr>"
proof -
  from assms have r: "loadToolFromFile_resume f (fst (dynamicImport f s w)) s = (Inr t, s1)"
    by (simp add: loadToolFromFile_def split: prod.splits)
  then show ?thesis
    by (auto simp: loadToolFromFile_resume_def dest: checkExports_Inr
        split: module_result.splits sum.splits)
qed

lemma registry_ok_path:
  assumes "registry_ok s" and "map_of (toolPathMap s) n = Some p"
  shows "tool_name p = n"
proof -
  from assms(2) have "(n, p) \<in> set (toolPathMap s)" by (rule map_of_SomeD)
  with assms(1) show ?thesis
    by (fastforce simp: registry_ok_def list_all_iff)
qed


lemma resolve_path_Inr:
  assumes "registry_ok s" and "resolve_path n s w = (Inr p, s1, w1)"
  shows "tool_name p = n
         \<and> (s1 = s \<or> s1 = s\<lparr>toolPathMap := map_set n p (toolPathMap s)\<rparr>)"
  using assms
  by (auto simp: resolve_path_def dest: scan_for_Inr registry_ok_path
      split: option.splits if_splits)



lemma registry_ok_new_tools: "registry_ok new_tools"
  by (simp add: registry_ok_def new_tools_def)


text \<open>
  The hypothesis of C10 holds of the registry as constructed and is kept by every
  operation, so it holds of every registry the operations can reach.
\<close>

lemma loadToolFromFile_resume_ok:
  "registry_ok s \<Longrightarrow> registry_ok (snd (loadToolFromFile_resume f r s))"
  by (auto simp: loadToolFromFile_resume_def registry_ok_def list_all_map_set
      split: module_result.splits sum.splits)

lemma settle_ok: "registry_ok s \<Longrightarrow> registry_ok (fst (snd (settle ps s w)))"
  by (induction ps arbitrary: s w)
    (simp_all add: case_prod_beta Let_def loadToolFromFile_resume_ok)

lemma settle_toolCache: "toolCache (fst (snd (settle ps s w))) = toolCache s"
  by (induction ps arbitrary: s w)
    (auto simp add: case_prod_beta Let_def loadToolFromFile_resume_def
      split: module_result.splits sum.splits)

lemma cache_all_ok:
  "list_all (\<lambda>e. name (snd e) = fst e) m \<Longrightarrow> list_all (\<lambda>e. name (snd e) = fst e) (cache_all ts m)"
  by (induction ts arbitrary: m) (simp_all add: list_all_map_set)

lemma loadTools_loaded_ok:
  "registry_ok s \<Longrightarrow> registry_ok (fst (snd (loadTools_loaded ps s w)))"
  using settle_ok [of s ps w]
  by (auto simp: loadTools_loaded_def case_prod_beta Let_def registry_ok_def cache_all_ok
      split: sum.splits)

lemma loadTools_ok: "registry_ok s \<Longrightarrow> registry_ok (fst (snd (loadTools s w)))"
proof -
  have e: "registry_ok (s\<lparr>toolCache := [], toolPathMap := []\<rparr>)"
    by (simp add: registry_ok_def)
  assume "registry_ok s"
  then show ?thesis
    using loadTools_loaded_ok [OF e]
    by (simp add: loadTools_def loadTools_enter_def loadTools_scanned_def case_prod_beta)
qed

lemma loadTool_uncached_ok:
  assumes ok: "registry_ok s"
  shows "registry_ok (fst (snd (loadTool_uncached n s w)))"
proof (cases "resolve_path n s w")
  case (fields rp s0 w0)
  show ?thesis
  proof (cases rp)
    case (Inl e)
    with fields have "s0 = s"
      by (auto simp: resolve_path_def scan_for_alt split: option.splits if_splits)
    with fields Inl ok show ?thesis
      by (simp add: loadTool_uncached_def)
  next
    case (Inr p)
    from resolve_path_Inr [OF ok fields [unfolded Inr]] have p: "tool_name p = n"
      and s0: "s0 = s \<or> s0 = s\<lparr>toolPathMap := map_set n p (toolPathMap s)\<rparr>" by simp_all
    from s0 ok p have ok0: "registry_ok s0"
      by (auto simp: registry_ok_def list_all_map_set)
    obtain r s2 w2 where l: "loadToolFromFile p s0 w0 = (r, s2, w2)"
      by (cases "loadToolFromFile p s0 w0")
    then have "s2 = snd (loadToolFromFile_resume p (fst (dynamicImport p s0 w0)) s0)"
      by (simp add: loadToolFromFile_def case_prod_beta)
    with ok0 have ok2: "registry_ok s2"
      by (simp add: loadToolFromFile_resume_ok)
    show ?thesis
    proof (cases r)
      case (Inl e)
      with fields Inr l ok2 show ?thesis
        by (simp add: loadTool_uncached_def)
    next
      case r: (Inr t)
      from loadToolFromFile_Inr [OF l [unfolded r]] p have "name t = n" by simp
      with ok2 have "registry_ok (s2\<lparr>toolCache := map_set n t (toolCache s2)\<rparr>)"
        by (simp add: registry_ok_def list_all_map_set)
      with fields Inr l r show ?thesis
        by (simp add: loadTool_uncached_def)
    qed
  qed
qed

lemma loadTool_ok: "registry_ok s \<Longrightarrow> registry_ok (fst (snd (loadTool n s w)))"
  by (simp add: loadTool_def loadTool_uncached_ok split: option.splits)

lemma onFileChange_ok: "registry_ok s \<Longrightarrow> registry_ok (fst (snd (onFileChange e f s w)))"
  by (simp add: onFileChange_def registry_ok_def case_prod_beta Let_def split: option.splits)

lemma startWatching_ok: "registry_ok s \<Longrightarrow> registry_ok (fst (startWatching s w))"
  by (simp add: startWatching_def registry_ok_def Let_def)

lemma stopWatching_ok: "registry_ok s \<Longrightarrow> registry_ok (fst (stopWatching s w))"
  by (simp add: stopWatching_def registry_ok_def split: option.splits)

section \<open>Runs of the model on concrete folders\<close>

lemmas eval_defs = loadTools_def loadTools_enter_def loadTools_scanned_def loadTools_loaded_def
  resolveToolFiles_def loadToolFromFile_def loadToolFromFile_resume_def catch_and_log_def
  dynamicImport_def host_import_def file_at_def absolute_def checkExports_def get_export_def
  new_tools_def new_world_def ts_glob_def extname_def last_segment_def tool_name_def
  basename_def valid_module_def log_to_def Let_def map_values_def

text \<open>
  C1. The registry watches a folder holding \<^verbatim>\<open>hello.ts\<close>. A call of \<^verbatim>\<open>loadTools\<close> has
  scanned the folder and started its imports when \<^verbatim>\<open>extra.ts\<close> is created and the watcher
  reports it: the valid flag is cleared and the change is logged. The call then completes,
  caches \<^verbatim>\<open>hello\<close> alone and sets the flag, although the folder holds both files; the next
  \<^verbatim>\<open>loadTools\<close> answers \<^verbatim>\<open>hello\<close> alone from the cache, without a scan. Had the same
  event come after the call returned, the next call would list both tools.
\<close>

theorem loadTools_race:
  "case watching_start of (s0, w0) \<Rightarrow>
     (case loadTools_interrupted file_added s0 w0 of (r, s1, w1) \<Rightarrow>
        map_sum id (map name) r = Inr [''hello'']
        \<and> cacheValid s1
        \<and> map fst (toolCache s1) = [''hello'']
        \<and> fst (resolveToolFiles s1 w1) = [''/t/hello.ts'', ''/t/extra.ts'']
        \<and> (INFO, ''File changed'',
              [(''event'', JStr ''rename''), (''filename'', JStr ''extra.ts'')])
             \<in> set (logged w1)
        \<and> (case loadTools s1 w1 of (r2, s2, w2) \<Rightarrow>
              map_sum id (map name) r2 = Inr [''hello''] \<and> scanCount w2 = scanCount w1))
     \<and> (case loadTools s0 w0 of (r, s1, w1) \<Rightarrow>
          case file_added s1 w1 of (s2, w2) \<Rightarrow>
            \<not> cacheValid s2
            \<and> map_sum id (map name) (fst (loadTools s2 w2)) = Inr [''hello'', ''extra''])"
  by (simp add: watching_start_def loadTools_interrupted_def file_added_def startWatching_def
      fs_event_def watch_listener_def onFileChange_def edit_file_def eval_defs)

text \<open>
  Whatever happened to the flag while the imports were awaited, the continuation of
  lines 64-72 sets it when it runs.
\<close>

lemma loadTools_loaded_sets_valid:
  "fst (loadTools_loaded pending s w) = Inr ts \<Longrightarrow>
     cacheValid (fst (snd (loadTools_loaded pending s w)))"
  by (auto simp: loadTools_loaded_def case_prod_beta Let_def split: sum.splits)

text \<open>
  C3. A folder holds the valid \<^verbatim>\<open>hello.ts\<close> and a file \<^verbatim>\<open>bad.ts\<close> whose evaluation
  throws \<^verbatim>\<open>null\<close>. The handler of line 58 reads \<^verbatim>\<open>.message\<close> of \<^verbatim>\<open>null\<close>, which throws;
  \<^verbatim>\<open>Promise.all\<close> rejects and \<^verbatim>\<open>loadTools\<close> fails as a whole: nothing is cached, nothing
  is reported about \<^verbatim>\<open>bad.ts\<close>, and \<^verbatim>\<open>hello\<close> is not returned. The always-rescan
  variant returns \<^verbatim>\<open>hello\<close> on the same folder.
\<close>

theorem loadTools_thrown_null:
  "case loadTools new_tools
          (new_world [(''hello.ts'', valid_module ''Says hello''), (''bad.ts'', Throws JNull)]) of
     (r, s1, w1) \<Rightarrow>
       r = Inl (JErr ''null is not an object (evaluating 'err.message')'')
       \<and> toolCache s1 = [] \<and> \<not> cacheValid s1
       \<and> filter (\<lambda>e. fst e = ERROR) (logged w1) = []
       \<and> map_sum id (map name) (fst (loadTools_rescan new_tools
             (new_world [(''hello.ts'', valid_module ''Says hello''), (''bad.ts'', Throws JNull)])))
           = Inr [''hello'']"
  by (simp add: eval_defs import_key_def loadTools_rescan_def loadToolFromFile_rescan_def)

text \<open>
  C6. The file \<^verbatim>\<open>hello.ts\<close> is loaded, rewritten, and loaded again while
  \<^verbatim>\<open>Date.now()\<close> still returns the same millisecond. Both loads ask for the same
  specifier, the second is answered from the module map with the instance of the first,
  and the file's new content is not evaluated. One millisecond later it is.
\<close>

theorem same_millisecond_import:
  "case loadToolFromFile ''/t/hello.ts'' new_tools
          (new_world [(''hello.ts'', valid_module ''v1'')]) of
     (r1, s1, w1) \<Rightarrow>
       map_sum id description r1 = Inr (buildDescription ''v1'' ''/t/hello.ts'')
       \<and> (case loadToolFromFile ''/t/hello.ts'' s1
                  (edit_file ''hello.ts'' (valid_module ''v2'') w1) of
            (r2, s2, w2) \<Rightarrow>
              map_sum id description r2 = Inr (buildDescription ''v1'' ''/t/hello.ts'')
              \<and> importCount w2 = 2 \<and> evalCount w2 = 1
              \<and> file_at s1 w2 ''/t/hello.ts'' = Some (valid_module ''v2''))
       \<and> (case loadToolFromFile ''/t/hello.ts'' s1
                  (tick 1 (edit_file ''hello.ts'' (valid_module ''v2'') w1)) of
            (r2, s2, w2) \<Rightarrow>
              map_sum id description r2 = Inr (buildDescription ''v2'' ''/t/hello.ts'')
              \<and> importCount w2 = 2 \<and> evalCount w2 = 2)"
  by (simp add: eval_defs edit_file_def tick_def import_key_def show_nat.simps digit_char_def)

text \<open>
  C8. One \<^verbatim>\<open>startWatching\<close> leaves one open watcher. A second one opens another and
  forgets the first: a single change is then reported twice and the subscriber is notified
  twice. \<^verbatim>\<open>stopWatching\<close> closes the second watcher only; the first stays open, and
  after \<^verbatim>\<open>stopWatching\<close> has returned a change is still delivered and the subscriber
  still notified. A further \<^verbatim>\<open>stopWatching\<close> changes nothing.
\<close>

theorem startWatching_twice:
  "watchers (snd (startWatching watched_tools (new_world []))) = [0]
   \<and> (case startWatching watched_tools (new_world []) of (s1, w1) \<Rightarrow>
        case startWatching s1 w1 of (s2, w2) \<Rightarrow>
          watchers w2 = [0, 1] \<and> watcher s2 = Some 1
          \<and> length (fst (fs_event ''change'' (Some ''hello.ts'') s2 w2)) = 2
          \<and> length (filter (\<lambda>e. fst (snd e) = ''Tools changed, notifying clients'')
                (logged (snd (snd (fs_event ''change'' (Some ''hello.ts'') s2 w2))))) = 2
          \<and> (case stopWatching s2 w2 of (s3, w3) \<Rightarrow>
                watcher s3 = None \<and> watchers w3 = [0]
                \<and> fst (fs_event ''change'' (Some ''hello.ts'') s3 w3) = [Inr ()]
                \<and> length (filter (\<lambda>e. fst (snd e) = ''Tools changed, notifying clients'')
                      (logged (snd (snd (fs_event ''change'' (Some ''hello.ts'') s3 w3))))) = 1
                \<and> stopWatching s3 w3 = (s3, w3)))"
  by (simp add: startWatching_def stopWatching_def fs_event_def watch_listener_def
      onFileChange_def watched_tools_def onChange_def notifying_subscriber_def new_tools_def
      new_world_def log_to_def ts_glob_def extname_def last_segment_def Let_def)

text \<open>What does hold of the watcher's life cycle.\<close>

lemma stopWatching_idempotent:
  "stopWatching (fst (stopWatching s w)) (snd (stopWatching s w)) = stopWatching s w"
  by (simp add: stopWatching_def split: option.splits)

lemma stopWatching_closes:
  "watcher s = Some h \<Longrightarrow> h \<notin> set (watchers (snd (stopWatching s w)))"
  by (simp add: stopWatching_def log_to_def)

lemma start_stop_no_events:
  "watchers w = [] \<Longrightarrow>
     (case startWatching s w of (s1, w1) \<Rightarrow>
        case stopWatching s1 w1 of (s2, w2) \<Rightarrow>
          watchers w2 = [] \<and> fs_event e f s2 w2 = ([], s2, w2))"
  by (simp add: startWatching_def stopWatching_def fs_event_def log_to_def Let_def)

section \<open>A rescanning loadTools, file by file\<close>

lemma catch_and_log_fst: "fst (catch_and_log f res w) = caught res"
  by (simp add: catch_and_log_def caught_def split: sum.splits)

lemma loadToolFromFile_resume_fst:
  "fst (loadToolFromFile_resume f r s) = loadToolFromFile_rescan f r"
  by (simp add: loadToolFromFile_resume_def loadToolFromFile_rescan_def
      split: module_result.splits sum.splits)

lemma loadToolFromFile_resume_targetFolder:
  "targetFolder (snd (loadToolFromFile_resume f r s)) = targetFolder s"
  by (simp add: loadToolFromFile_resume_def split: module_result.splits sum.splits)

lemma host_import_fst:
  "fst (host_import s k f w) =
     (if map_of (modules w) k \<noteq> None then the (map_of (modules w) k)
      else if file_at s w f \<noteq> None then the (file_at s w f)
      else Throws (JErr (''Cannot find module '' @ f)))"
  by (simp add: host_import_def Let_def split: option.splits)

lemma file_at_cong:
  "targetFolder s' = targetFolder s \<Longrightarrow> dir w' = dir w \<Longrightarrow> file_at s' w' f = file_at s w f"
  by (simp add: file_at_def absolute_def)

lemma host_import_cong:
  assumes "targetFolder s' = targetFolder s" and "dir w' = dir w" and "modules w' = modules w"
  shows "fst (host_import s' k f w') = fst (host_import s k f w)"
  unfolding host_import_fst file_at_cong [OF assms(1,2)] assms(3) by (rule refl)

lemma import_key_inj: "import_key f T = import_key g T \<Longrightarrow> f = g"
  by (simp add: import_key_def)

lemma host_import_snd:
  "snd (host_import s k f w) =
     (if map_of (modules w) k = None \<and> file_at s w f \<noteq> None
      then w\<lparr>importCount := importCount w + 1,
             modules := modules w @ [(k, the (file_at s w f))], evalCount := evalCount w + 1\<rparr>
      else w\<lparr>importCount := importCount w + 1\<rparr>)"
  by (simp add: host_import_def Let_def split: option.splits)

lemma host_import_after:
  "fst (host_import s (import_key f T) f (snd (host_import s (import_key g T) g w)))
     = fst (host_import s (import_key f T) f w)"
proof (cases "map_of (modules w) (import_key g T) = None \<and> file_at s w g \<noteq> None")
  case False
  then have "snd (host_import s (import_key g T) g w) = w\<lparr>importCount := importCount w + 1\<rparr>"
    by (simp only: host_import_snd if_False)
  then show ?thesis
    using host_import_cong [of s s "w\<lparr>importCount := importCount w + 1\<rparr>" w "import_key f T" f]
    by simp
next
  case True
  define w' where "w' = w\<lparr>importCount := importCount w + 1,
             modules := modules w @ [(import_key g T, the (file_at s w g))],
             evalCount := evalCount w + 1\<rparr>"
  from True have sw: "snd (host_import s (import_key g T) g w) = w'"
    by (simp add: host_import_snd w'_def)
  have fa: "file_at s w' f = file_at s w f"
    by (rule file_at_cong) (simp_all add: w'_def)
  have mo: "map_of (modules w') (import_key f T) =
      (case map_of (modules w) (import_key f T) of
         Some r \<Rightarrow> Some r
       | None \<Rightarrow> if import_key f T = import_key g T then Some (the (file_at s w g)) else None)"
    by (simp add: w'_def map_add_def split: option.splits)
  show ?thesis
  proof (cases "map_of (modules w) (import_key f T)")
    case (Some r)
    with mo show ?thesis
      by (simp add: sw host_import_fst)
  next
    case None
    show ?thesis
    proof (cases "import_key f T = import_key g T")
      case k: True
      then have "f = g" by (rule import_key_inj)
      with None True mo show ?thesis
        by (simp add: sw host_import_fst fa)
    next
      case k: False
      with None mo show ?thesis
        by (simp add: sw host_import_fst fa)
    qed
  qed
qed

lemma catch_and_log_import:
  "fst (host_import s k f (snd (catch_and_log g res w))) = fst (host_import s k f w)"
  by (rule host_import_cong) (simp_all add: catch_and_log_def log_to_def split: sum.splits)

lemma settle_outcomes:
  assumes "\<forall>f. fst (host_import s (import_key f T) f w) = fst (host_import s0 (import_key f T) f w0)"
  shows "fst (settle (map (\<lambda>f. (f, import_key f T)) files) s w)
         = map (\<lambda>f. caught (loadToolFromFile_rescan f (fst (host_import s0 (import_key f T) f w0))))
             files"
  using assms
proof (induction files arbitrary: s w)
  case Nil
  show ?case by simp
next
  case (Cons g files)
  let ?w1 = "snd (host_import s (import_key g T) g w)"
  let ?r = "fst (host_import s (import_key g T) g w)"
  let ?s1 = "snd (loadToolFromFile_resume g ?r s)"
  let ?res = "fst (loadToolFromFile_resume g ?r s)"
  let ?w2 = "snd (catch_and_log g ?res ?w1)"
  have next_ok: "\<forall>f. fst (host_import ?s1 (import_key f T) f ?w2)
                    = fst (host_import s0 (import_key f T) f w0)"
  proof
    fix f
    have "fst (host_import ?s1 (import_key f T) f ?w2) = fst (host_import s (import_key f T) f ?w2)"
      by (rule host_import_cong) (simp_all add: loadToolFromFile_resume_targetFolder)
    also have "\<dots> = fst (host_import s (import_key f T) f ?w1)"
      by (rule catch_and_log_import)
    also have "\<dots> = fst (host_import s (import_key f T) f w)"
      by (rule host_import_after)
    also have "\<dots> = fst (host_import s0 (import_key f T) f w0)"
      using Cons.prems by simp
    finally show "fst (host_import ?s1 (import_key f T) f ?w2)
                    = fst (host_import s0 (import_key f T) f w0)" .
  qed
  have hd: "caught ?res = caught (loadToolFromFile_rescan g (fst (host_import s0 (import_key g T) g w0)))"
    using Cons.prems by (simp add: loadToolFromFile_resume_fst)
  show ?case
    using Cons.IH [OF next_ok] hd
    by (simp add: case_prod_beta Let_def catch_and_log_fst)
qed


lemma loadToolFromFile_rescan_eq:
  "loadToolFromFile_rescan f (fst (host_import s (import_key f (now w)) f w))
     = fst (loadToolFromFile f s w)"
  by (simp add: loadToolFromFile_fst dynamicImport_def loadToolFromFile_resume_fst)

lemma loadTools_miss:
  assumes "\<not> (cacheValid s \<and> toolCache s \<noteq> [])"
  shows "loadTools s w =
           loadTools_loaded
             (map (\<lambda>f. (f, import_key f (now w))) (fst (resolveToolFiles s w)))
             (s\<lparr>toolCache := [], toolPathMap := []\<rparr>)
             (log_to DEBUG ''Resolved tool files''
                [(''count'', JNum (int (length (fst (resolveToolFiles s w)))))]
                (snd (resolveToolFiles s w)))"
  using assms
  by (auto simp: loadTools_def loadTools_enter_def loadTools_scanned_def case_prod_beta
      resolveToolFiles_def)

lemma loadTools_outcomes:
  "fst (settle (map (\<lambda>f. (f, import_key f (now w))) files)
          (s\<lparr>toolCache := [], toolPathMap := []\<rparr>)
          (log_to l msg meta (snd (resolveToolFiles s w))))
     = map (\<lambda>f. caught (fst (loadToolFromFile f s w))) files"
proof -
  have "\<forall>f. fst (host_import (s\<lparr>toolCache := [], toolPathMap := []\<rparr>) (import_key f (now w)) f
                  (log_to l msg meta (snd (resolveToolFiles s w))))
            = fst (host_import s (import_key f (now w)) f w)"
    by (intro allI host_import_cong) (simp_all add: log_to_def resolveToolFiles_def)
  from settle_outcomes [OF this] show ?thesis
    by (simp add: loadToolFromFile_rescan_eq)
qed

lemma promise_all_caught:
  "promise_all (map (\<lambda>f. caught (g f)) files) = Inr rs \<Longrightarrow>
     filter_Boolean rs = concat (map (\<lambda>f. case g f of Inl e \<Rightarrow> [] | Inr t \<Rightarrow> [t]) files)"
proof (induction files arbitrary: rs)
  case Nil
  then show ?case by simp
next
  case (Cons f files)
  show ?case
  proof (cases "caught (g f)")
    case (Inl e)
    with Cons.prems show ?thesis by simp
  next
    case (Inr x)
    with Cons.prems obtain rs' where rs': "promise_all (map (\<lambda>f. caught (g f)) files) = Inr rs'"
      and rs: "rs = x # rs'"
      by (auto split: sum.splits)
    have "filter_Boolean [x] = (case g f of Inl e \<Rightarrow> [] | Inr t \<Rightarrow> [t])"
      using Inr by (auto simp: caught_def split: sum.splits)
    moreover have "filter_Boolean (x # rs') = filter_Boolean [x] @ filter_Boolean rs'"
      by (cases x) simp_all
    ultimately show ?thesis
      using Cons.IH [OF rs'] by (simp add: rs)
  qed
qed

lemma settle_dir: "dir (snd (snd (settle ps s w))) = dir w"
  by (induction ps arbitrary: s w)
    (simp_all add: case_prod_beta Let_def host_import_snd catch_and_log_def log_to_def
      split: sum.splits)

lemma loadTools_Inr:
  assumes miss: "\<not> (cacheValid s \<and> toolCache s \<noteq> [])"
    and run: "loadTools s w = (Inr ts, s1, w1)"
  shows "ts = successes s w (fst (resolveToolFiles s w))
         \<and> toolCache s1 = cache_all ts [] \<and> cacheValid s1 \<and> dir w1 = dir w"
proof -
  let ?files = "fst (resolveToolFiles s w)"
  let ?pending = "map (\<lambda>f. (f, import_key f (now w))) ?files"
  let ?s2 = "s\<lparr>toolCache := [], toolPathMap := []\<rparr>"
  let ?w2 = "log_to DEBUG ''Resolved tool files'' [(''count'', JNum (int (length ?files)))]
               (snd (resolveToolFiles s w))"
  have l: "loadTools_loaded ?pending ?s2 ?w2 = (Inr ts, s1, w1)"
    using run by (simp only: loadTools_miss [OF miss])
  have o: "fst (settle ?pending ?s2 ?w2) = map (\<lambda>f. caught (fst (loadToolFromFile f s w))) ?files"
    by (rule loadTools_outcomes)
  from l obtain rs where p: "promise_all (fst (settle ?pending ?s2 ?w2)) = Inr rs"
    and ts: "ts = filter_Boolean rs"
    and s1: "s1 = (fst (snd (settle ?pending ?s2 ?w2)))\<lparr>toolCache :=
                cache_all ts (toolCache (fst (snd (settle ?pending ?s2 ?w2)))), cacheValid := True\<rparr>"
    and w1: "w1 = snd (snd (settle ?pending ?s2 ?w2))"
    by (auto simp: loadTools_loaded_def case_prod_beta Let_def split: sum.splits)
  from p o have "ts = successes s w ?files"
    by (simp add: ts successes_def promise_all_caught)
  moreover have "toolCache s1 = cache_all ts []"
    by (simp add: s1 settle_toolCache)
  moreover have "cacheValid s1" by (simp add: s1)
  moreover have "dir w1 = dir w"
    by (simp add: w1 settle_dir log_to_def resolveToolFiles_def)
  ultimately show ?thesis by simp
qed


lemma keys_map_set:
  "map fst (map_set k v m) = (if k \<in> set (map fst m) then map fst m else map fst m @ [k])"
  by (induction m) auto

lemma keys_set_map_set: "fst ` set (map_set k v m) = insert k (fst ` set m)"
  by (induction m) auto

lemma keys_cache_all: "fst ` set (cache_all ts m) = fst ` set m \<union> name ` set ts"
  by (induction ts arbitrary: m) (simp_all add: keys_set_map_set)

lemma distinct_cache_all: "distinct (map fst m) \<Longrightarrow> distinct (map fst (cache_all ts m))"
  by (induction ts arbitrary: m) (simp_all add: keys_map_set)

lemma map_of_cache_all:
  "map_of (cache_all ts m) n =
     (if filter (\<lambda>t. name t = n) ts = [] then map_of m n
      else Some (last (filter (\<lambda>t. name t = n) ts)))"
  by (induction ts arbitrary: m) (simp_all add: map_of_map_set)

lemma names_cache_all: "map name (map_values (cache_all ts [])) = map fst (cache_all ts [])"
proof -
  have "list_all (\<lambda>e. name (snd e) = fst e) (cache_all ts [])"
    by (rule cache_all_ok) simp
  then show ?thesis
    by (simp add: map_values_def list_all_iff)
qed

lemma length_cache_all:
  assumes "\<not> distinct (map name ts)"
  shows "length (cache_all ts []) < length ts"
proof -
  have d: "distinct (map fst (cache_all ts []))"
    by (rule distinct_cache_all) simp
  have "length (cache_all ts []) = length (map fst (cache_all ts []))" by simp
  also have "\<dots> = card (set (map fst (cache_all ts [])))"
    using d by (simp only: distinct_card)
  also have "\<dots> = card (set (map name ts))"
    by (simp add: keys_cache_all)
  also have "\<dots> < length (map name ts)"
    using assms card_length [of "map name ts"] card_distinct [of "map name ts"]
    by fastforce
  finally show ?thesis by simp
qed

lemma successes_append: "successes s w (xs @ ys) = successes s w xs @ successes s w ys"
  by (simp add: successes_def)

lemma successes_Cons:
  "successes s w (f # fs) =
     (case fst (loadToolFromFile f s w) of Inl e \<Rightarrow> [] | Inr t \<Rightarrow> [t]) @ successes s w fs"
  by (simp add: successes_def)

lemma loadToolFromFile_name:
  "fst (loadToolFromFile f s w) = Inr t \<Longrightarrow> name t = tool_name f"
  using loadToolFromFile_Inr [of f s w t "fst (snd (loadToolFromFile f s w))"
      "snd (snd (loadToolFromFile f s w))"]
  by (simp add: prod_eq_iff)

lemma successes_names:
  "t \<in> set (successes s w fs) \<Longrightarrow> \<exists>f \<in> set fs. name t = tool_name f"
proof (induction fs)
  case Nil
  then show ?case by (simp add: successes_def)
next
  case (Cons f fs)
  show ?case
  proof (cases "fst (loadToolFromFile f s w)")
    case (Inl e)
    with Cons show ?thesis by (simp add: successes_Cons)
  next
    case (Inr u)
    from loadToolFromFile_name [OF Inr] have "name u = tool_name f" .
    with Cons Inr show ?thesis by (auto simp: successes_Cons)
  qed
qed

text \<open>
  C9. The cache does not answer, the scan finds two files \<^verbatim>\<open>fa\<close> before \<^verbatim>\<open>fb\<close> with
  the same base name, both load, no later file has that base name, and \<^verbatim>\<open>loadTools\<close>
  returns. Then the returned list has one definition per file that loads, among them the
  two of the same name; the cache keeps one entry per distinct name and, for the shared
  name, the definition of \<^verbatim>\<open>fb\<close>; the folder is unchanged, and the next \<^verbatim>\<open>loadTools\<close>
  answers from the cache, without a scan, a strictly shorter list with distinct names, which
  differs from the first result.
\<close>

theorem loadTools_same_base_name:
  assumes miss: "\<not> (cacheValid s \<and> toolCache s \<noteq> [])"
    and scan: "fst (resolveToolFiles s w) = xs @ fa # ys @ fb # zs"
    and same: "tool_name fa = tool_name fb"
    and la: "fst (loadToolFromFile fa s w) = Inr ta"
    and lb: "fst (loadToolFromFile fb s w) = Inr tb"
    and later: "\<forall>f \<in> set zs. tool_name f \<noteq> tool_name fb"
    and run: "loadTools s w = (Inr ts, s1, w1)"
  shows "ts = successes s w xs @ ta # successes s w ys @ tb # successes s w zs
         \<and> name ta = name tb
         \<and> 2 \<le> length (filter (\<lambda>t. name t = name tb) ts)
         \<and> map_of (toolCache s1) (name tb) = Some tb
         \<and> cacheValid s1 \<and> dir w1 = dir w
         \<and> (case loadTools s1 w1 of (r2, s2, w2) \<Rightarrow>
               r2 = Inr (map_values (toolCache s1)) \<and> scanCount w2 = scanCount w1
               \<and> r2 \<noteq> Inr ts)
         \<and> distinct (map name (map_values (toolCache s1)))
         \<and> set (map name (map_values (toolCache s1))) = set (map name ts)
         \<and> length (map_values (toolCache s1)) < length ts"
proof -
  from loadTools_Inr [OF miss run] have ts0: "ts = successes s w (fst (resolveToolFiles s w))"
    and c: "toolCache s1 = cache_all ts []" and v: "cacheValid s1" and d: "dir w1 = dir w"
    by simp_all
  have ts: "ts = successes s w xs @ ta # successes s w ys @ tb # successes s w zs"
    by (simp add: ts0 scan successes_append successes_Cons la lb)
  have na: "name ta = tool_name fb"
    using loadToolFromFile_name [OF la] same by simp
  have nb: "name tb = tool_name fb"
    by (rule loadToolFromFile_name [OF lb])
  have z: "filter (\<lambda>t. name t = name tb) (successes s w zs) = []"
  proof -
    have "\<forall>t \<in> set (successes s w zs). name t \<noteq> name tb"
      using later nb by (auto dest!: successes_names)
    then show ?thesis by (simp add: filter_empty_conv)
  qed
  have two: "2 \<le> length (filter (\<lambda>t. name t = name tb) ts)"
    by (simp add: ts na nb)
  have lst: "last (filter (\<lambda>t. name t = name tb) ts) = tb"
    by (simp add: ts na nb z [unfolded nb])
  have ne: "filter (\<lambda>t. name t = name tb) ts \<noteq> []"
    using two by auto
  have m: "map_of (toolCache s1) (name tb) = Some tb"
    using ne lst by (simp add: c map_of_cache_all)
  have nd: "\<not> distinct (map name ts)"
    by (simp add: ts na nb)
  have len: "length (map_values (toolCache s1)) < length ts"
    using length_cache_all [OF nd] by (simp add: c map_values_def)
  have dn: "distinct (map name (map_values (toolCache s1)))"
    unfolding c names_cache_all by (rule distinct_cache_all) simp
  have sn: "set (map name (map_values (toolCache s1))) = set (map name ts)"
    unfolding c names_cache_all by (simp add: keys_cache_all)
  have nonempty: "toolCache s1 \<noteq> []"
    using m by auto
  have second: "case loadTools s1 w1 of (r2, s2, w2) \<Rightarrow>
               r2 = Inr (map_values (toolCache s1)) \<and> scanCount w2 = scanCount w1
               \<and> r2 \<noteq> Inr ts"
    using v nonempty len
    by (auto simp: loadTools_def loadTools_enter_def log_to_def)
  from ts na nb two m v d second dn sn len show ?thesis by simp
qed


theorem loadTools_same_base_name_witness:
  "\<not> (cacheValid new_tools \<and> toolCache new_tools \<noteq> [])
   \<and> fst (resolveToolFiles new_tools twin_world) = [] @ ''/t/a/hello.ts'' # [] @ ''/t/b/hello.ts'' # []
   \<and> tool_name ''/t/a/hello.ts'' = tool_name ''/t/b/hello.ts''
   \<and> map_sum id (map name) (fst (loadTools new_tools twin_world)) = Inr [''hello'', ''hello'']
   \<and> map description (map_values (toolCache (fst (snd (loadTools new_tools twin_world)))))
       = [buildDescription ''second'' ''/t/b/hello.ts'']
   \<and> length (map_values (toolCache (fst (snd (loadTools new_tools twin_world))))) < 2"
proof -
  let ?ta = "\<lparr>name = ''hello'', description = buildDescription ''first'' ''/t/a/hello.ts'',
              inputSchema = JObj 0, execute = JFun 0\<rparr>"
  let ?tb = "\<lparr>name = ''hello'', description = buildDescription ''second'' ''/t/b/hello.ts'',
              inputSchema = JObj 0, execute = JFun 0\<rparr>"
  have miss: "\<not> (cacheValid new_tools \<and> toolCache new_tools \<noteq> [])"
    by (simp add: new_tools_def)
  have scan: "fst (resolveToolFiles new_tools twin_world)
                = [] @ ''/t/a/hello.ts'' # [] @ ''/t/b/hello.ts'' # []"
    by (simp add: twin_world_def eval_defs)
  have same: "tool_name ''/t/a/hello.ts'' = tool_name ''/t/b/hello.ts''"
    by (simp add: eval_defs)
  have la: "fst (loadToolFromFile ''/t/a/hello.ts'' new_tools twin_world) = Inr ?ta"
    by (simp add: twin_world_def eval_defs)
  have lb: "fst (loadToolFromFile ''/t/b/hello.ts'' new_tools twin_world) = Inr ?tb"
    by (simp add: twin_world_def eval_defs)
  have later: "\<forall>f \<in> set []. tool_name f \<noteq> tool_name ''/t/b/hello.ts''"
    by simp
  have r: "fst (loadTools new_tools twin_world) = Inr [?ta, ?tb]"
    by (simp add: twin_world_def eval_defs import_key_def)
  then have run: "loadTools new_tools twin_world
      = (Inr [?ta, ?tb], fst (snd (loadTools new_tools twin_world)),
         snd (snd (loadTools new_tools twin_world)))"
    by (simp add: prod_eq_iff)
  have c: "toolCache (fst (snd (loadTools new_tools twin_world))) = [(''hello'', ?tb)]"
    by (simp add: twin_world_def eval_defs import_key_def)
  show ?thesis
    using loadTools_same_base_name [OF miss scan same la lb later run] miss scan same r c
    by (simp add: map_values_def successes_def)
qed

section \<open>Serving from a valid cache\<close>

lemma loadTools_hit:
  assumes "cacheValid s" and "toolCache s \<noteq> []"
  shows "loadTools s w =
           (Inr (map_values (toolCache s)), s,
            log_to DEBUG ''Returning cached tools''
              [(''count'', JNum (int (length (toolCache s))))] w)"
  using assms by (simp add: loadTools_def loadTools_enter_def)

lemma map_set_fresh: "k \<notin> fst ` set m \<Longrightarrow> map_set k v m = m @ [(k, v)]"
  by (induction m) auto

lemma cache_all_distinct:
  "distinct (map fst m @ map name ts) \<Longrightarrow> cache_all ts m = m @ map (\<lambda>t. (name t, t)) ts"
proof (induction ts arbitrary: m)
  case Nil
  show ?case by simp
next
  case (Cons t ts)
  from Cons.prems have fresh: "name t \<notin> fst ` set m"
    by auto
  from Cons.prems have "distinct (map fst (m @ [(name t, t)]) @ map name ts)"
    by auto
  from Cons.IH [OF this] fresh show ?case
    by (simp add: map_set_fresh)
qed

lemma cache_all_distinct_values:
  "distinct (map name ts) \<Longrightarrow> map_values (cache_all ts []) = ts"
  using cache_all_distinct [of "[]" ts] by (simp add: map_values_def comp_def)

lemma cache_all_nonempty: "ts \<noteq> [] \<Longrightarrow> cache_all ts [] \<noteq> []"
proof -
  assume "ts \<noteq> []"
  then have "name ` set ts \<noteq> {}" by simp
  then have "fst ` set (cache_all ts []) \<noteq> {}"
    by (simp add: keys_cache_all)
  then show ?thesis by auto
qed

text \<open>
  C2, as stated, fails for the call that follows the load which made the cache valid. On a
  folder with two tool files of the same base name the first \<^verbatim>\<open>loadTools\<close> scans, returns
  two definitions and leaves the cache valid and not empty; the folder does not change;
  the second call returns one definition, from the cache, with no scan and no import. The
  two results are not equal, as lists or as sets.
\<close>

theorem loadTools_second_call_counterexample:
  "case loadTools new_tools twin_world of (r, s1, w1) \<Rightarrow>
     cacheValid s1 \<and> toolCache s1 \<noteq> [] \<and> dir w1 = dir twin_world
     \<and> (case r of
           Inl e \<Rightarrow> False
         | Inr ts \<Rightarrow>
             (case loadTools s1 w1 of (r2, s2, w2) \<Rightarrow>
                (case r2 of
                   Inl e \<Rightarrow> False
                 | Inr ts2 \<Rightarrow>
                     map name ts = [''hello'', ''hello''] \<and> map name ts2 = [''hello'']
                     \<and> length ts2 < length ts \<and> set ts2 \<noteq> set ts
                     \<and> scanCount w2 = scanCount w1 \<and> importCount w2 = importCount w1)))"
  by (simp add: twin_world_def eval_defs import_key_def buildDescription_def)

text \<open>
  When the load finds no tool at all, the flag is set over an empty cache, and the next
  call scans and imports again: the cache answers only when it is not empty.
\<close>

lemma loadTools_empty_cache_rescans:
  "case loadTools new_tools failing_world of (r, s1, w1) \<Rightarrow>
     r = Inr [] \<and> cacheValid s1 \<and> toolCache s1 = [] \<and> dir w1 = dir failing_world
     \<and> (case loadTools s1 w1 of (r2, s2, w2) \<Rightarrow>
           r2 = Inr [] \<and> scanCount w2 = Suc (scanCount w1)
           \<and> importCount w2 = Suc (importCount w1))"
  by (simp add: failing_world_def broken_module_def eval_defs import_key_def)

text \<open>
  C2, amended. Whenever the valid flag is set and the cache is not empty, \<^verbatim>\<open>loadTools\<close>
  returns exactly the cached definitions, in the cache's order, and leaves the registry as
  it was: the folder is not scanned, \<^verbatim>\<open>import()\<close> is not called, no file is evaluated.
  In particular, after a \<^verbatim>\<open>loadTools\<close> that returned a list that is not empty, the flag
  is set and the cache is not empty, and a second call right after it, the folder
  unchanged, returns the cached definitions with no scan, no import and no evaluation. That
  second result has the names of the first; it has one definition per name when the first
  call scanned; and it is equal to the first result when the first call was itself served
  from the cache or returned definitions of pairwise distinct names.
\<close>

theorem loadTools_serves_cache:
  "(cacheValid s \<and> toolCache s \<noteq> [] \<longrightarrow>
      (case loadTools s w of (r, s', w') \<Rightarrow>
         r = Inr (map_values (toolCache s)) \<and> s' = s
         \<and> scanCount w' = scanCount w \<and> importCount w' = importCount w
         \<and> evalCount w' = evalCount w \<and> modules w' = modules w \<and> dir w' = dir w))
   \<and> (loadTools s w = (Inr ts, s1, w1) \<and> ts \<noteq> [] \<longrightarrow>
        cacheValid s1 \<and> toolCache s1 \<noteq> [] \<and> dir w1 = dir w
        \<and> (case loadTools s1 w1 of (r2, s2, w2) \<Rightarrow>
              r2 = Inr (map_values (toolCache s1)) \<and> s2 = s1
              \<and> scanCount w2 = scanCount w1 \<and> importCount w2 = importCount w1
              \<and> evalCount w2 = evalCount w1 \<and> modules w2 = modules w1 \<and> dir w2 = dir w1
              \<and> set (map name (map_values (toolCache s1))) = set (map name ts)
              \<and> (\<not> (cacheValid s \<and> toolCache s \<noteq> []) \<longrightarrow>
                    distinct (map name (map_values (toolCache s1))))
              \<and> ((cacheValid s \<and> toolCache s \<noteq> []) \<or> distinct (map name ts) \<longrightarrow>
                    r2 = Inr ts)))"
proof (intro conjI impI)
  assume "cacheValid s \<and> toolCache s \<noteq> []"
  then show "case loadTools s w of (r, s', w') \<Rightarrow>
         r = Inr (map_values (toolCache s)) \<and> s' = s
         \<and> scanCount w' = scanCount w \<and> importCount w' = importCount w
         \<and> evalCount w' = evalCount w \<and> modules w' = modules w \<and> dir w' = dir w"
    by (simp add: loadTools_hit log_to_def)
next
  assume a: "loadTools s w = (Inr ts, s1, w1) \<and> ts \<noteq> []"
  then have run: "loadTools s w = (Inr ts, s1, w1)" and ne: "ts \<noteq> []" by simp_all
  have facts: "cacheValid s1 \<and> toolCache s1 \<noteq> [] \<and> dir w1 = dir w
      \<and> set (map name (map_values (toolCache s1))) = set (map name ts)
      \<and> (\<not> (cacheValid s \<and> toolCache s \<noteq> []) \<longrightarrow>
            distinct (map name (map_values (toolCache s1))))
      \<and> ((cacheValid s \<and> toolCache s \<noteq> []) \<or> distinct (map name ts) \<longrightarrow>
            map_values (toolCache s1) = ts)"
  proof (cases "cacheValid s \<and> toolCache s \<noteq> []")
    case True
    with run have "ts = map_values (toolCache s)" and "s1 = s" and "dir w1 = dir w"
      by (auto simp: loadTools_hit log_to_def)
    with True show ?thesis by simp
  next
    case False
    from loadTools_Inr [OF False run] have c: "toolCache s1 = cache_all ts []"
      and v: "cacheValid s1" and d: "dir w1 = dir w" by simp_all
    have n: "toolCache s1 \<noteq> []"
      unfolding c by (rule cache_all_nonempty [OF ne])
    have sn: "set (map name (map_values (toolCache s1))) = set (map name ts)"
      unfolding c names_cache_all by (simp add: keys_cache_all)
    have dn: "distinct (map name (map_values (toolCache s1)))"
      unfolding c names_cache_all by (rule distinct_cache_all) simp
    have eq: "distinct (map name ts) \<longrightarrow> map_values (toolCache s1) = ts"
      unfolding c by (simp add: cache_all_distinct_values)
    from v n d sn dn eq False show ?thesis by blast
  qed
  then have v: "cacheValid s1" and n: "toolCache s1 \<noteq> []" by simp_all
  have second: "loadTools s1 w1 =
           (Inr (map_values (toolCache s1)), s1,
            log_to DEBUG ''Returning cached tools''
              [(''count'', JNum (int (length (toolCache s1))))] w1)"
    by (rule loadTools_hit [OF v n])
  from facts show "cacheValid s1" by simp
  from facts show "toolCache s1 \<noteq> []" by simp
  from facts show "dir w1 = dir w" by simp
  from facts show "case loadTools s1 w1 of (r2, s2, w2) \<Rightarrow>
              r2 = Inr (map_values (toolCache s1)) \<and> s2 = s1
              \<and> scanCount w2 = scanCount w1 \<and> importCount w2 = importCount w1
              \<and> evalCount w2 = evalCount w1 \<and> modules w2 = modules w1 \<and> dir w2 = dir w1
              \<and> set (map name (map_values (toolCache s1))) = set (map name ts)
              \<and> (\<not> (cacheValid s \<and> toolCache s \<noteq> []) \<longrightarrow>
                    distinct (map name (map_values (toolCache s1))))
              \<and> ((cacheValid s \<and> toolCache s \<noteq> []) \<or> distinct (map name ts) \<longrightarrow>
                    r2 = Inr ts)"
    unfolding second by (auto simp: log_to_def)
qed

theorem loadTools_serves_cache_witness:
  "cacheValid (new_tools\<lparr>toolCache := [(''hello'', hello_tool)], cacheValid := True\<rparr>)
   \<and> toolCache (new_tools\<lparr>toolCache := [(''hello'', hello_tool)], cacheValid := True\<rparr>) \<noteq> []
   \<and> fst (loadTools (new_tools\<lparr>toolCache := [(''hello'', hello_tool)], cacheValid := True\<rparr>)
             (new_world []))
       = Inr [hello_tool]
   \<and> scanCount (snd (snd (loadTools
         (new_tools\<lparr>toolCache := [(''hello'', hello_tool)], cacheValid := True\<rparr>)
         (new_world [])))) = 0
   \<and> map_sum id (map name) (fst (loadTools new_tools mixed_world)) = Inr [''hello'']
   \<and> distinct [''hello'']
   \<and> fst (loadTools (fst (snd (loadTools new_tools mixed_world)))
                     (snd (snd (loadTools new_tools mixed_world))))
       = fst (loadTools new_tools mixed_world)
   \<and> scanCount (snd (snd (loadTools (fst (snd (loadTools new_tools mixed_world)))
                     (snd (snd (loadTools new_tools mixed_world))))))
       = scanCount (snd (snd (loadTools new_tools mixed_world)))
   \<and> importCount (snd (snd (loadTools (fst (snd (loadTools new_tools mixed_world)))
                     (snd (snd (loadTools new_tools mixed_world))))))
       = importCount (snd (snd (loadTools new_tools mixed_world)))"
proof -
  let ?h = "new_tools\<lparr>toolCache := [(''hello'', hello_tool)], cacheValid := True\<rparr>"
  have hit: "cacheValid ?h \<and> toolCache ?h \<noteq> []" by simp
  have first: "case loadTools ?h (new_world []) of (r, s', w') \<Rightarrow>
         r = Inr (map_values (toolCache ?h)) \<and> s' = ?h
         \<and> scanCount w' = scanCount (new_world []) \<and> importCount w' = importCount (new_world [])
         \<and> evalCount w' = evalCount (new_world []) \<and> modules w' = modules (new_world [])
         \<and> dir w' = dir (new_world [])"
    by (rule mp [OF conjunct1 [OF loadTools_serves_cache] hit])
  obtain r s1 w1 where run: "loadTools new_tools mixed_world = (r, s1, w1)"
    by (cases "loadTools new_tools mixed_world")
  have nm: "map_sum id (map name) r = Inr [''hello'']"
    using run by (auto simp: mixed_world_def broken_module_def eval_defs import_key_def)
  then obtain ts where r: "r = Inr ts" and ts: "map name ts = [''hello'']"
    by (cases r) auto
  from ts have ne: "ts \<noteq> []" and dist: "distinct (map name ts)" by auto
  have miss: "\<not> (cacheValid new_tools \<and> toolCache new_tools \<noteq> [])"
    by (simp add: new_tools_def)
  have second: "case loadTools s1 w1 of (r2, s2, w2) \<Rightarrow>
       r2 = Inr ts \<and> scanCount w2 = scanCount w1 \<and> importCount w2 = importCount w1"
    using loadTools_serves_cache [of new_tools mixed_world ts s1 w1] run r ne dist
    by (auto split: prod.splits)
  have z: "scanCount (new_world []) = 0" by (simp add: new_world_def)
  from first second hit nm z show ?thesis
    by (auto simp: run r map_values_def split: prod.splits)
qed

section \<open>What holds of the batch, the loader and the registry besides\<close>

lemma catch_and_log_logged: "logged (snd (catch_and_log f res w)) = logged w @ report f res"
  by (simp add: catch_and_log_def report_def log_to_def split: sum.splits)

lemma host_import_logged: "logged (snd (host_import s k f w)) = logged w"
  by (simp add: host_import_snd)

lemma settle_logged:
  assumes "\<forall>f. fst (host_import s (import_key f T) f w) = fst (host_import s0 (import_key f T) f w0)"
  shows "logged (snd (snd (settle (map (\<lambda>f. (f, import_key f T)) files) s w)))
         = logged w @ concat (map (\<lambda>f. report f
               (loadToolFromFile_rescan f (fst (host_import s0 (import_key f T) f w0)))) files)"
  using assms
proof (induction files arbitrary: s w)
  case Nil
  show ?case by simp
next
  case (Cons g files)
  let ?w1 = "snd (host_import s (import_key g T) g w)"
  let ?r = "fst (host_import s (import_key g T) g w)"
  let ?s1 = "snd (loadToolFromFile_resume g ?r s)"
  let ?res = "fst (loadToolFromFile_resume g ?r s)"
  let ?w2 = "snd (catch_and_log g ?res ?w1)"
  have next_ok: "\<forall>f. fst (host_import ?s1 (import_key f T) f ?w2)
                    = fst (host_import s0 (import_key f T) f w0)"
  proof
    fix f
    have "fst (host_import ?s1 (import_key f T) f ?w2) = fst (host_import s (import_key f T) f ?w2)"
      by (rule host_import_cong) (simp_all add: loadToolFromFile_resume_targetFolder)
    also have "\<dots> = fst (host_import s (import_key f T) f ?w1)"
      by (rule catch_and_log_import)
    also have "\<dots> = fst (host_import s (import_key f T) f w)"
      by (rule host_import_after)
    also have "\<dots> = fst (host_import s0 (import_key f T) f w0)"
      using Cons.prems by simp
    finally show "fst (host_import ?s1 (import_key f T) f ?w2)
                    = fst (host_import s0 (import_key f T) f w0)" .
  qed
  have hd: "logged ?w2 = logged w @ report g
              (loadToolFromFile_rescan g (fst (host_import s0 (import_key g T) g w0)))"
    using Cons.prems
    by (simp add: catch_and_log_logged host_import_logged loadToolFromFile_resume_fst)
  show ?case
    using Cons.IH [OF next_ok] hd
    by (simp add: case_prod_beta Let_def)
qed

lemma caught_Inl_iff: "isl (caught res) = (res = Inl JNull \<or> res = Inl JUndefined)"
proof (cases res)
  case (Inl e)
  then show ?thesis by (cases e) (simp_all add: caught_def)
next
  case (Inr t)
  then show ?thesis by (simp add: caught_def)
qed

lemma promise_all_Inr: "\<forall>x \<in> set outs. \<not> isl x \<Longrightarrow> \<exists>rs. promise_all outs = Inr rs"
proof (induction outs)
  case Nil
  show ?case by simp
next
  case (Cons x outs)
  then obtain rs where "promise_all outs = Inr rs" by auto
  with Cons.prems show ?case by (cases x) simp_all
qed

text \<open>
  Per-file tolerance of the cached \<^verbatim>\<open>loadTools\<close>. When the cache does not answer and
  no scanned file fails with \<^verbatim>\<open>null\<close> or \<^verbatim>\<open>undefined\<close> as the thrown value, the call
  returns the tools of the files that load, in scan order, and logs one error for each
  file that does not.
\<close>

theorem loadTools_tolerates_failures:
  assumes miss: "\<not> (cacheValid s \<and> toolCache s \<noteq> [])"
    and thrown: "\<forall>f \<in> set (fst (resolveToolFiles s w)).
                   fst (loadToolFromFile f s w) \<noteq> Inl JNull
                   \<and> fst (loadToolFromFile f s w) \<noteq> Inl JUndefined"
  shows "fst (loadTools s w) = Inr (successes s w (fst (resolveToolFiles s w)))
         \<and> logged (snd (snd (loadTools s w)))
             = logged w
               @ [(DEBUG, ''Resolved tool files'',
                   [(''count'', JNum (int (length (fst (resolveToolFiles s w)))))])]
               @ concat (map (\<lambda>f. report f (fst (loadToolFromFile f s w)))
                           (fst (resolveToolFiles s w)))"
proof -
  let ?files = "fst (resolveToolFiles s w)"
  let ?pending = "map (\<lambda>f. (f, import_key f (now w))) ?files"
  let ?s2 = "s\<lparr>toolCache := [], toolPathMap := []\<rparr>"
  let ?w2 = "log_to DEBUG ''Resolved tool files'' [(''count'', JNum (int (length ?files)))]
               (snd (resolveToolFiles s w))"
  have l: "loadTools s w = loadTools_loaded ?pending ?s2 ?w2"
    by (rule loadTools_miss [OF miss])
  have o: "fst (settle ?pending ?s2 ?w2) = map (\<lambda>f. caught (fst (loadToolFromFile f s w))) ?files"
    by (rule loadTools_outcomes)
  have "\<forall>x \<in> set (fst (settle ?pending ?s2 ?w2)). \<not> isl x"
    using thrown by (auto simp: o caught_Inl_iff)
  from promise_all_Inr [OF this] obtain rs
    where p: "promise_all (fst (settle ?pending ?s2 ?w2)) = Inr rs" ..
  from p have "filter_Boolean rs = successes s w ?files"
    by (simp add: o successes_def promise_all_caught)
  with p have r: "fst (loadTools s w) = Inr (successes s w ?files)"
    by (simp add: l loadTools_loaded_def case_prod_beta Let_def)
  have same: "\<forall>f. fst (host_import ?s2 (import_key f (now w)) f ?w2)
            = fst (host_import s (import_key f (now w)) f w)"
    by (intro allI host_import_cong) (simp_all add: log_to_def resolveToolFiles_def)
  have "logged (snd (snd (loadTools s w))) = logged (snd (snd (settle ?pending ?s2 ?w2)))"
    using p by (simp add: l loadTools_loaded_def case_prod_beta Let_def)
  also have "\<dots> = logged ?w2 @ concat (map (\<lambda>f. report f (fst (loadToolFromFile f s w))) ?files)"
    using settle_logged [OF same] by (simp add: loadToolFromFile_rescan_eq)
  finally show ?thesis
    using r by (simp add: log_to_def resolveToolFiles_def)
qed

theorem loadTools_tolerates_failures_witness:
  "\<not> (cacheValid new_tools \<and> toolCache new_tools \<noteq> [])
   \<and> fst (resolveToolFiles new_tools mixed_world) = [''/t/hello.ts'', ''/t/broken.ts'']
   \<and> isl (fst (loadToolFromFile ''/t/broken.ts'' new_tools mixed_world))
   \<and> map_sum id (map name) (fst (loadTools new_tools mixed_world)) = Inr [''hello'']
   \<and> map (\<lambda>e. (fst e, fst (snd e))) (logged (snd (snd (loadTools new_tools mixed_world))))
       = [(DEBUG, ''Resolved tool files''), (ERROR, ''Failed to load tool from file'')]"
proof -
  have miss: "\<not> (cacheValid new_tools \<and> toolCache new_tools \<noteq> [])"
    by (simp add: new_tools_def)
  have scan: "fst (resolveToolFiles new_tools mixed_world) = [''/t/hello.ts'', ''/t/broken.ts'']"
    by (simp add: mixed_world_def eval_defs)
  have lh: "map_sum id name (fst (loadToolFromFile ''/t/hello.ts'' new_tools mixed_world))
              = Inr ''hello''"
    by (simp add: mixed_world_def eval_defs)
  have lb: "fst (loadToolFromFile ''/t/broken.ts'' new_tools mixed_world)
              = Inl (JErr (''Tool file /t/broken.ts must export a 'description' string''))"
    by (simp add: mixed_world_def broken_module_def eval_defs)
  have thrown: "\<forall>f \<in> set (fst (resolveToolFiles new_tools mixed_world)).
                   fst (loadToolFromFile f new_tools mixed_world) \<noteq> Inl JNull
                   \<and> fst (loadToolFromFile f new_tools mixed_world) \<noteq> Inl JUndefined"
    using lh lb by (auto simp: scan)
  have lg: "logged mixed_world = []"
    by (simp add: mixed_world_def new_world_def)
  obtain t where t: "fst (loadToolFromFile ''/t/hello.ts'' new_tools mixed_world) = Inr t"
    and nt: "name t = ''hello''"
    using lh by (cases "fst (loadToolFromFile ''/t/hello.ts'' new_tools mixed_world)") auto
  show ?thesis
    using loadTools_tolerates_failures [OF miss thrown] miss lb t nt
    by (simp add: scan lg successes_def report_def)
qed


lemma settle_rescan_outcomes:
  assumes "\<forall>f. fst (host_import s (import_key f T) f w) = fst (host_import s (import_key f T) f w0)"
  shows "fst (settle_rescan (map (\<lambda>f. (f, import_key f T)) files) s w)
         = map (\<lambda>f. (f, loadToolFromFile_rescan f (fst (host_import s (import_key f T) f w0))))
             files"
  using assms
proof (induction files arbitrary: w)
  case Nil
  show ?case by simp
next
  case (Cons g files)
  let ?w1 = "snd (host_import s (import_key g T) g w)"
  have next_ok: "\<forall>f. fst (host_import s (import_key f T) f ?w1)
                    = fst (host_import s (import_key f T) f w0)"
    using Cons.prems by (simp add: host_import_after)
  show ?case
    using Cons.IH [OF next_ok] Cons.prems
    by (simp add: case_prod_beta Let_def)
qed

lemma collect_rescan_fst:
  "fst (collect_rescan outs w)
     = concat (map (\<lambda>p. case snd p of Inl e \<Rightarrow> [] | Inr t \<Rightarrow> [t]) outs)"
  by (induction outs w rule: collect_rescan.induct) (simp_all add: case_prod_beta)

text \<open>
  The always-rescan \<^verbatim>\<open>loadTools\<close> returns the tools of the files that load, for every
  folder and whatever the failing files throw.
\<close>

theorem loadTools_rescan_result:
  "fst (loadTools_rescan s w) = Inr (successes s w (fst (resolveToolFiles s w)))"
proof -
  let ?files = "fst (resolveToolFiles s w)"
  let ?w2 = "log_to DEBUG ''Resolved tool files'' [(''count'', JNum (int (length ?files)))]
               (snd (resolveToolFiles s w))"
  have same: "\<forall>f. fst (host_import s (import_key f (now w)) f ?w2)
            = fst (host_import s (import_key f (now w)) f w)"
    by (intro allI host_import_cong) (simp_all add: log_to_def resolveToolFiles_def)
  have n: "now ?w2 = now w"
    by (simp add: log_to_def resolveToolFiles_def)
  have "fst (settle_rescan (map (\<lambda>f. (f, import_key f (now w))) ?files) s ?w2)
          = map (\<lambda>f. (f, fst (loadToolFromFile f s w))) ?files"
    using settle_rescan_outcomes [OF same] by (simp add: loadToolFromFile_rescan_eq)
  then show ?thesis
    by (simp add: loadTools_rescan_def case_prod_beta Let_def n collect_rescan_fst
        successes_def comp_def)
qed

text \<open>
  The registry as constructed indexes every path under its base name and caches every
  tool under its name, and each operation keeps that.
\<close>

theorem registry_ok_preserved:
  "registry_ok new_tools
   \<and> (registry_ok s \<longrightarrow>
        registry_ok (fst (snd (loadTools s w)))
        \<and> registry_ok (fst (snd (loadTool n s w)))
        \<and> registry_ok (fst (snd (onFileChange e f s w)))
        \<and> registry_ok (fst (startWatching s w))
        \<and> registry_ok (fst (stopWatching s w)))"
  by (simp add: registry_ok_new_tools loadTools_ok loadTool_ok onFileChange_ok startWatching_ok
      stopWatching_ok)

theorem registry_ok_preserved_witness:
  "registry_ok new_tools
   \<and> registry_ok (fst (snd (loadTools new_tools mixed_world)))
   \<and> toolPathMap (fst (snd (loadTools new_tools mixed_world))) = [(''hello'', ''/t/hello.ts'')]"
proof -
  have "toolPathMap (fst (snd (loadTools new_tools mixed_world))) = [(''hello'', ''/t/hello.ts'')]"
    by (simp add: mixed_world_def broken_module_def eval_defs import_key_def)
  then show ?thesis
    using registry_ok_preserved [of new_tools mixed_world] by simp
qed

text \<open>
  An import whose specifier the runtime has not seen evaluates the file's current
  content.
\<close>

theorem dynamicImport_fresh_key:
  assumes "map_of (modules w) (import_key f (now w)) = None"
  shows "fst (dynamicImport f s w) =
           (case file_at s w f of
              None \<Rightarrow> Throws (JErr (''Cannot find module '' @ f))
            | Some r \<Rightarrow> r)
         \<and> evalCount (snd (dynamicImport f s w)) =
             (if file_at s w f = None then evalCount w else evalCount w + 1)"
  using assms by (simp add: dynamicImport_def host_import_def split: option.splits)

theorem dynamicImport_fresh_key_witness:
  "map_of (modules (new_world [(''hello.ts'', valid_module ''v1'')]))
      (import_key ''/t/hello.ts'' (now (new_world [(''hello.ts'', valid_module ''v1'')]))) = None
   \<and> fst (dynamicImport ''/t/hello.ts'' new_tools (new_world [(''hello.ts'', valid_module ''v1'')]))
       = valid_module ''v1''
   \<and> evalCount (snd (dynamicImport ''/t/hello.ts'' new_tools
        (new_world [(''hello.ts'', valid_module ''v1'')]))) = 1"
proof -
  have m: "map_of (modules (new_world [(''hello.ts'', valid_module ''v1'')]))
      (import_key ''/t/hello.ts'' (now (new_world [(''hello.ts'', valid_module ''v1'')]))) = None"
    by (simp add: new_world_def)
  have f: "file_at new_tools (new_world [(''hello.ts'', valid_module ''v1'')]) ''/t/hello.ts''
             = Some (valid_module ''v1'')"
    by (simp add: file_at_def absolute_def new_tools_def new_world_def)
  have e: "evalCount (new_world [(''hello.ts'', valid_module ''v1'')]) = 0"
    by (simp add: new_world_def)
  show ?thesis
    using dynamicImport_fresh_key [OF m, of new_tools] m f e by simp
qed

text \<open>
  An event that passes the glob filter clears the valid flag and leaves the cache's
  entries in place; unless the subscriber sets the flag again, the next \<^verbatim>\<open>loadTools\<close>
  that nothing interrupts scans the folder.
\<close>

theorem event_forces_rescan:
  assumes "globPattern s f"
  shows "\<not> cacheValid (fst (snd (onFileChange e f s w)))
         \<and> toolCache (fst (snd (onFileChange e f s w))) = toolCache s
         \<and> scanCount (snd (snd (loadTools (fst (snd (onFileChange e f s w))) w'))) = Suc (scanCount w')"
proof -
  have v: "\<not> cacheValid (fst (snd (onFileChange e f s w)))"
    using assms by (simp add: onFileChange_def case_prod_beta Let_def split: option.splits)
  have c: "toolCache (fst (snd (onFileChange e f s w))) = toolCache s"
    by (simp add: onFileChange_def case_prod_beta Let_def split: option.splits)
  from v c loadTools_rescans [OF v, of w'] show ?thesis by simp
qed

theorem event_forces_rescan_witness:
  "globPattern (new_tools\<lparr>toolCache := [(''hello'', hello_tool)], cacheValid := True\<rparr>) ''extra.ts''
   \<and> \<not> cacheValid (fst (snd (onFileChange ''rename'' ''extra.ts''
          (new_tools\<lparr>toolCache := [(''hello'', hello_tool)], cacheValid := True\<rparr>) (new_world []))))
   \<and> scanCount (snd (snd (loadTools (fst (snd (onFileChange ''rename'' ''extra.ts''
          (new_tools\<lparr>toolCache := [(''hello'', hello_tool)], cacheValid := True\<rparr>) (new_world []))))
          (new_world [])))) = 1"
proof -
  have g: "globPattern (new_tools\<lparr>toolCache := [(''hello'', hello_tool)], cacheValid := True\<rparr>)
             ''extra.ts''"
    by (simp add: new_tools_def ts_glob_def extname_def last_segment_def)
  have z: "scanCount (new_world []) = 0"
    by (simp add: new_world_def)
  show ?thesis
    using g z event_forces_rescan [OF g, of "''rename''" "new_world []" "new_world []"]
    by simp
qed

text \<open>
  With no watcher open before, one \<^verbatim>\<open>startWatching\<close> followed by \<^verbatim>\<open>stopWatching\<close>
  leaves no watcher open, and a change is then delivered to nobody.
\<close>

theorem start_then_stop:
  assumes "watchers w = []"
  shows "watchers (snd (stopWatching (fst (startWatching s w)) (snd (startWatching s w)))) = []
         \<and> watcher (fst (stopWatching (fst (startWatching s w)) (snd (startWatching s w)))) = None
         \<and> fst (fs_event e f
                  (fst (stopWatching (fst (startWatching s w)) (snd (startWatching s w))))
                  (snd (stopWatching (fst (startWatching s w)) (snd (startWatching s w))))) = []"
  using assms
  by (simp add: startWatching_def stopWatching_def fs_event_def log_to_def Let_def)

theorem start_then_stop_witness:
  "watchers (new_world []) = []
   \<and> watchers (snd (stopWatching (fst (startWatching new_tools (new_world [])))
                      (snd (startWatching new_tools (new_world []))))) = []"
proof -
  have e: "watchers (new_world []) = []"
    by (simp add: new_world_def)
  show ?thesis
    using e start_then_stop [OF e, of new_tools] by simp
qed

end
